theory Spec2Isabelle
  imports Complex_Main "HOL-Library.AList"
begin

section \<open>Python values used by the pipeline\<close>

text \<open>
  Exceptions of the Python runtime that the modelled code can raise. Every raise of the
  source is a branch of the model returning \<open>Inl\<close>.
\<close>

datatype py_error = ValueError | IndexError | RuntimeError string

text \<open>
  Query text is modelled as ASCII: a character is classified by its code. Whitespace is
  what \<open>str.strip\<close>, \<open>str.split\<close> and the regular expression class \<open>\s\<close> accept
  (tab, line feed, vertical tab, form feed, carriage return, the separators 28 to 31 and
  the space); a word character is what \<open>\w\<close> accepts (letters, digits, underscore).
\<close>

definition is_space :: "char \<Rightarrow> bool" where
  "is_space c = (let n = (of_char c :: nat) in (9 \<le> n \<and> n \<le> 13) \<or> (28 \<le> n \<and> n \<le> 32))"

definition is_word :: "char \<Rightarrow> bool" where
  "is_word c = (let n = (of_char c :: nat) in
     (48 \<le> n \<and> n \<le> 57) \<or> (65 \<le> n \<and> n \<le> 90) \<or> n = 95 \<or> (97 \<le> n \<and> n \<le> 122))"

text \<open>\<open>str.lower\<close> on ASCII: the capital letters go to their small letters.\<close>

definition lower_char :: "char \<Rightarrow> char" where
  "lower_char c =
     (case map_of (zip ''ABCDEFGHIJKLMNOPQRSTUVWXYZ'' ''abcdefghijklmnopqrstuvwxyz'') c of
        None \<Rightarrow> c
      | Some l \<Rightarrow> l)"

definition lower :: "string \<Rightarrow> string" where
  "lower s = map lower_char s"

definition strip :: "string \<Rightarrow> string" where
  "strip s = rev (dropWhile is_space (rev (dropWhile is_space s)))"

text \<open>\<open>s.split()\<close>: the maximal runs of non-whitespace characters, in order.\<close>

fun split_from :: "string \<Rightarrow> string \<Rightarrow> string list" where
  "split_from w [] = (if w = [] then [] else [rev w])"
| "split_from w (c # cs) =
     (if is_space c then (if w = [] then split_from [] cs else rev w # split_from [] cs)
      else split_from (c # w) cs)"

definition split :: "string \<Rightarrow> string list" where
  "split s = split_from [] s"

text \<open>\<open>sep.join(ws)\<close>.\<close>

fun join :: "string \<Rightarrow> string list \<Rightarrow> string" where
  "join sep [] = []"
| "join sep [w] = w"
| "join sep (w # v # ws) = w @ sep @ join sep (v # ws)"

text \<open>\<open>w in s\<close> on strings: \<open>w\<close> occurs in \<open>s\<close> as a contiguous substring.\<close>

fun contains :: "string \<Rightarrow> string \<Rightarrow> bool" where
  "contains w [] = (w = [])"
| "contains w (c # cs) = (take (length w) (c # cs) = w \<or> contains w cs)"

text \<open>
  \<open>xs[:k]\<close>: the first \<open>k\<close> elements for \<open>k \<ge> 0\<close>; for a negative \<open>k\<close>, all but the
  last \<open>-k\<close> elements. \<open>xs[-k:]\<close> for a positive literal \<open>k\<close>: the last \<open>k\<close> elements.
\<close>

definition slice_to :: "'a list \<Rightarrow> int \<Rightarrow> 'a list" where
  "slice_to xs k = (if 0 \<le> k then take (nat k) xs else take (length xs - nat (- k)) xs)"

definition last_n :: "nat \<Rightarrow> 'a list \<Rightarrow> 'a list" where
  "last_n k xs = drop (length xs - k) xs"

section \<open>The cache (\<open>src/core/cache_manager.py\<close>)\<close>

text \<open>
  A cached item is the dictionary \<open>{"data": ..., "timestamp": ...}\<close>. The cache is a
  Python \<open>dict\<close>, which keeps its keys in insertion order: an association list in which
  assigning to a present key keeps its place, assigning to a new key appends it, and
  \<open>del\<close> removes it (\<^const>\<open>AList.update\<close>, \<^const>\<open>AList.delete\<close>, \<^const>\<open>map_of\<close>).
  Readings of \<open>time.time()\<close> are real numbers, passed in by the caller.
\<close>

record 'd cached_item =
  data :: 'd
  timestamp :: real

record 'd SimpleCacheManager =
  cache :: "(string \<times> 'd cached_item) list"
  max_size :: int
  ttl_seconds :: int
  hit_count :: nat
  total_requests :: nat

text \<open>\<open>SimpleCacheManager(max_size, ttl_seconds)\<close>; the defaults are 100 and 300.\<close>

definition new_cache :: "int \<Rightarrow> int \<Rightarrow> 'd SimpleCacheManager" where
  "new_cache m t = \<lparr>cache = [], max_size = m, ttl_seconds = t, hit_count = 0, total_requests = 0\<rparr>"

text \<open>
  \<open>_get_key\<close>: the MD5 digest of the lower-cased, stripped query joined to the search
  mode by an underscore. The digest function of \<open>hashlib\<close> is a parameter.
\<close>

definition get_key :: "(string \<Rightarrow> string) \<Rightarrow> string \<Rightarrow> string \<Rightarrow> string" where
  "get_key md5 query search_mode = md5 (strip (lower query) @ ''_'' @ search_mode)"

text \<open>\<open>get\<close>, at clock reading \<open>now\<close>: the data and the cache after the call.\<close>

definition cache_get ::
  "(string \<Rightarrow> string) \<Rightarrow> 'd SimpleCacheManager \<Rightarrow> string \<Rightarrow> string \<Rightarrow> real
     \<Rightarrow> 'd option \<times> 'd SimpleCacheManager" where
  "cache_get md5 self query search_mode now =
     (let key = get_key md5 query search_mode in
      case map_of (cache self) key of
        None \<Rightarrow> (None, self)
      | Some cached \<Rightarrow>
          if now - timestamp cached < real_of_int (ttl_seconds self)
          then (Some (data cached), self)
          else (None, self\<lparr>cache := AList.delete key (cache self)\<rparr>))"

text \<open>
  \<open>min(self.cache.keys(), key=lambda k: self.cache[k]["timestamp"])\<close>: the first key,
  in the dictionary's order, whose timestamp is the least; \<open>ValueError\<close> on an empty
  dictionary.
\<close>

fun oldest_from :: "string \<Rightarrow> real \<Rightarrow> (string \<times> 'd cached_item) list \<Rightarrow> string" where
  "oldest_from k t [] = k"
| "oldest_from k t ((k', v) # kvs) =
     (if timestamp v < t then oldest_from k' (timestamp v) kvs else oldest_from k t kvs)"

definition oldest_key :: "(string \<times> 'd cached_item) list \<Rightarrow> py_error + string" where
  "oldest_key kvs = (case kvs of [] \<Rightarrow> Inl ValueError | (k, v) # rest \<Rightarrow> Inr (oldest_from k (timestamp v) rest))"

text \<open>\<open>set\<close>, at clock reading \<open>now\<close>: the cache after the call, or the exception.\<close>

definition evict_if_full :: "'d SimpleCacheManager \<Rightarrow> py_error + (string \<times> 'd cached_item) list" where
  "evict_if_full self =
     (if int (length (cache self)) \<ge> max_size self
      then (case oldest_key (cache self) of
              Inl e \<Rightarrow> Inl e
            | Inr oldest \<Rightarrow> Inr (AList.delete oldest (cache self)))
      else Inr (cache self))"

definition cache_set ::
  "(string \<Rightarrow> string) \<Rightarrow> 'd SimpleCacheManager \<Rightarrow> string \<Rightarrow> string \<Rightarrow> 'd \<Rightarrow> real
     \<Rightarrow> py_error + 'd SimpleCacheManager" where
  "cache_set md5 self query search_mode d now =
     (case evict_if_full self of
        Inl e \<Rightarrow> Inl e
      | Inr kept \<Rightarrow>
          Inr (self\<lparr>cache := AList.update (get_key md5 query search_mode)
                                 \<lparr>data = d, timestamp = now\<rparr> kept\<rparr>))"

text \<open>
  A run of stores, each with its own clock reading: \<open>(query, search_mode, data, now)\<close>.
  The run stops at the first exception, as the caller's would.
\<close>

type_synonym 'd store_op = "string \<times> string \<times> 'd \<times> real"

definition op_key :: "(string \<Rightarrow> string) \<Rightarrow> 'd store_op \<Rightarrow> string" where
  "op_key md5 op = (case op of (q, m, d, t) \<Rightarrow> get_key md5 q m)"

definition op_time :: "'d store_op \<Rightarrow> real" where
  "op_time op = (case op of (q, m, d, t) \<Rightarrow> t)"

definition op_entry :: "(string \<Rightarrow> string) \<Rightarrow> 'd store_op \<Rightarrow> string \<times> 'd cached_item" where
  "op_entry md5 op = (case op of (q, m, d, t) \<Rightarrow> (get_key md5 q m, \<lparr>data = d, timestamp = t\<rparr>))"

fun store_all ::
  "(string \<Rightarrow> string) \<Rightarrow> 'd SimpleCacheManager \<Rightarrow> 'd store_op list
     \<Rightarrow> py_error + 'd SimpleCacheManager" where
  "store_all md5 self [] = Inr self"
| "store_all md5 self ((q, m, d, t) # ops) =
     (case cache_set md5 self q m d t of
        Inl e \<Rightarrow> Inl e
      | Inr self' \<Rightarrow> store_all md5 self' ops)"

section \<open>Guardrails (\<open>src/services/guardrails.py\<close>)\<close>

text \<open>
  The harmful patterns are regular expressions \<open>\b(w1|w2|...)\b\<close> and the off-topic ones
  \<open>\bw\b\<close>, searched in the lower-cased query. Every alternative is a literal that starts
  and ends with a word character, so the pattern matches where the literal occurs with no
  word character right before it and none right after it.
\<close>

definition harmfulPatterns :: "string list list" where
  "harmfulPatterns =
     [[''hack'', ''crack'', ''break'', ''bypass'', ''exploit''],
      [''illegal'', ''unlawful'', ''criminal''],
      [''violence'', ''violent'', ''harm'', ''hurt'', ''kill''],
      [''drug'', ''weapon'', ''bomb'', ''terrorist''],
      [''porn'', ''sexual'', ''explicit'']]"

definition offTopicPatterns :: "string list" where
  "offTopicPatterns =
     [''weather'', ''stock price'', ''news today'', ''current events'', ''sports score'']"

definition stopWords :: "string list" where
  "stopWords =
     [''the'', ''a'', ''an'', ''and'', ''or'', ''but'', ''in'', ''on'', ''at'', ''to'', ''for'',
      ''of'', ''with'', ''by'', ''is'', ''are'', ''was'', ''were'', ''be'', ''been'', ''being'']"

definition at_word_end :: "string \<Rightarrow> bool" where
  "at_word_end rest = (case rest of [] \<Rightarrow> True | c # cs \<Rightarrow> \<not> is_word c)"

text \<open>
  \<open>search_word w prev s\<close>: the literal \<open>w\<close> occurs in \<open>s\<close> between two word
  boundaries; \<open>prev\<close> tells whether the character before \<open>s\<close> is a word character.
\<close>

fun search_word :: "string \<Rightarrow> bool \<Rightarrow> string \<Rightarrow> bool" where
  "search_word w prev [] = False"
| "search_word w prev (c # cs) =
     ((\<not> prev \<and> take (length w) (c # cs) = w \<and> at_word_end (drop (length w) (c # cs)))
      \<or> search_word w (is_word c) cs)"

definition re_search :: "string list \<Rightarrow> string \<Rightarrow> bool" where
  "re_search alternatives s = list_ex (\<lambda>w. search_word w False s) alternatives"

record validation =
  isValid :: bool
  reason :: string

definition harmful :: "string \<Rightarrow> bool" where
  "harmful s = list_ex (\<lambda>harmfulPattern. re_search harmfulPattern s) harmfulPatterns"

definition offTopicMatches :: "string \<Rightarrow> nat" where
  "offTopicMatches s = length (filter (\<lambda>offTopicPattern. re_search [offTopicPattern] s) offTopicPatterns)"

definition off_topic_reason :: string where
  "off_topic_reason =
     ''I can only answer questions about the uploaded documents. Please ask about the document content.''"

definition validate_query :: "string \<Rightarrow> validation" where
  "validate_query query =
     (if query = [] \<or> strip query = []
      then \<lparr>isValid = False, reason = ''Query cannot be empty''\<rparr>
      else if length (strip query) < 3
      then \<lparr>isValid = False,
            reason = ''Query too short. Please provide a more detailed question.''\<rparr>
      else if length query > 500
      then \<lparr>isValid = False,
            reason = ''Query too long. Please keep questions under 500 characters.''\<rparr>
      else if harmful (lower query)
      then \<lparr>isValid = False,
            reason = ''Query contains inappropriate content. Please ask something else.''\<rparr>
      else if offTopicMatches (lower query) > 0
      then \<lparr>isValid = False, reason = off_topic_reason\<rparr>
      else \<lparr>isValid = True, reason = ''Query passed validation''\<rparr>)"

definition documentIndicators :: "string list" where
  "documentIndicators =
     [''document'', ''pdf'', ''file'', ''paper'', ''report'', ''text'', ''content'',
      ''what does'', ''according to'', ''mentioned'', ''states'', ''says'']"

definition is_query_about_documents :: "string \<Rightarrow> bool" where
  "is_query_about_documents query =
     list_ex (\<lambda>indicator. contains indicator (lower query)) documentIndicators"

text \<open>
  \<open>optimize_query\<close>. \<open>optimized_form\<close> is the value of \<open>optimizedQuery\<close> before the
  length check. The check \<open>len(optimizedQuery) < len(query) * 0.3\<close> compares an integer
  with the double nearest to the product of \<open>len(query)\<close> and the double \<open>0.3\<close>; for the
  lengths a string can have this holds exactly when \<open>10 * len(optimizedQuery) < 3 *
  len(query)\<close>, which is how it is written here.
\<close>

definition question_words :: "string list" where
  "question_words = [''what'', ''how'', ''when'', ''where'', ''why'', ''who'']"

definition optimized_form :: "string \<Rightarrow> string" where
  "optimized_form query =
     (let cleanQuery = lower (strip query);
          cleanQuery = map (\<lambda>c. if is_word c \<or> is_space c \<or> c = CHR ''?'' then c else CHR '' '')
                         cleanQuery;
          queryWords = split cleanQuery;
          optimizedWords =
            (if \<not> list_ex (\<lambda>word. word \<in> set question_words) queryWords
             then filter (\<lambda>word. word \<notin> set stopWords \<and> length word > 2) queryWords
             else filter (\<lambda>word. length word > 1) queryWords)
      in join '' '' optimizedWords)"

definition optimize_query :: "string \<Rightarrow> string" where
  "optimize_query query =
     (let optimizedQuery = optimized_form query
      in if 10 * length optimizedQuery < 3 * length query then query else optimizedQuery)"

section \<open>The re-ranker (\<open>src/core/reranker.py\<close>)\<close>

text \<open>
  A retrieved passage is the dictionary built by \<open>hybrid_search\<close>; \<open>rerank_score\<close> is the
  key the re-ranker adds. Scores are real numbers.
\<close>

record passage =
  score :: real
  chunkId :: string
  content :: string
  documentTitle :: string
  documentUrl :: string
  fileName :: string
  chunkIndex :: int
  rerank_score :: "real option"

text \<open>
  The loop \<open>for i, result in enumerate(results): result["rerank_score"] = float(scores[i])\<close>
  writes into the dictionaries of \<open>results\<close> themselves. Where \<open>scores\<close> is too short,
  \<open>scores[i]\<close> raises \<open>IndexError\<close> and the passages before \<open>i\<close> keep the score they
  were given. The result is the list after the loop and whether the loop finished.
\<close>

fun add_scores :: "passage list \<Rightarrow> real list \<Rightarrow> passage list \<times> bool" where
  "add_scores [] scores = ([], True)"
| "add_scores (result # results) [] = (result # results, False)"
| "add_scores (result # results) (s # scores) =
     (case add_scores results scores of
        (scored, finished) \<Rightarrow> (result\<lparr>rerank_score := Some s\<rparr> # scored, finished))"

text \<open>\<open>x.get("rerank_score", 0)\<close>.\<close>

definition get_rerank_score :: "passage \<Rightarrow> real" where
  "get_rerank_score x = (case rerank_score x of None \<Rightarrow> 0 | Some s \<Rightarrow> s)"

text \<open>
  \<open>sorted(xs, key=f, reverse=True)\<close>: descending by the key, and stable (elements with
  equal keys keep their order).
\<close>

definition sorted_desc :: "('a \<Rightarrow> real) \<Rightarrow> 'a list \<Rightarrow> 'a list" where
  "sorted_desc f xs = sort_key (\<lambda>x. - f x) xs"

text \<open>
  \<open>rerank_results\<close>. \<open>enabled\<close> is \<open>self.enabled\<close>; \<open>predict\<close> is the cross-encoder's
  \<open>predict\<close>, which returns the scores or raises. The \<open>except Exception\<close> clause catches
  whatever the \<open>try\<close> block raises, so the function always returns a list.
\<close>

definition rerank_results ::
  "bool \<Rightarrow> ((string \<times> string) list \<Rightarrow> py_error + real list) \<Rightarrow> string \<Rightarrow> passage list \<Rightarrow> int
     \<Rightarrow> passage list" where
  "rerank_results enabled predict query results top_k =
     (if \<not> enabled \<or> length results \<le> 1 then slice_to results top_k
      else
        (case predict (map (\<lambda>result. (query, content result)) results) of
           Inl e \<Rightarrow> slice_to results top_k
         | Inr scores \<Rightarrow>
             (case add_scores results scores of
                (scored, finished) \<Rightarrow>
                  if finished then slice_to (sorted_desc get_rerank_score scored) top_k
                  else slice_to scored top_k)))"

section \<open>The session store (\<open>src/services/retrieval_service.py\<close>)\<close>

text \<open>
  A chat turn is the dictionary \<open>{"role", "content", "timestamp"}\<close>; the timestamp is the
  ISO string of \<open>datetime.utcnow()\<close>, passed in by the caller. \<open>chatSessions\<close> is a
  dictionary from session ids to lists of turns.
\<close>

record chat_turn =
  role :: string
  turn_content :: string
  turn_timestamp :: string

type_synonym sessions = "string \<rightharpoonup> chat_turn list"

definition get_chat_history :: "sessions \<Rightarrow> string \<Rightarrow> chat_turn list" where
  "get_chat_history chatSessions sessionId =
     (case chatSessions sessionId of None \<Rightarrow> [] | Some history \<Rightarrow> history)"

definition user_turn :: "string \<Rightarrow> string \<Rightarrow> chat_turn" where
  "user_turn userQuery stamp = \<lparr>role = ''user'', turn_content = userQuery, turn_timestamp = stamp\<rparr>"

definition assistant_turn :: "string \<Rightarrow> string \<Rightarrow> chat_turn" where
  "assistant_turn assistantAnswer stamp =
     \<lparr>role = ''assistant'', turn_content = assistantAnswer, turn_timestamp = stamp\<rparr>"

text \<open>
  \<open>_update_chat_session\<close>, with the two readings of the clock: the session is created
  when it is missing, the two turns are appended, and a history of more than 20 turns is
  cut to its last 20.
\<close>

definition update_chat_session ::
  "sessions \<Rightarrow> string \<Rightarrow> string \<Rightarrow> string \<Rightarrow> string \<Rightarrow> string \<Rightarrow> sessions" where
  "update_chat_session chatSessions sessionId userQuery assistantAnswer stamp1 stamp2 =
     (let history = (case chatSessions sessionId of None \<Rightarrow> [] | Some h \<Rightarrow> h);
          history = history @ [user_turn userQuery stamp1];
          history = history @ [assistant_turn assistantAnswer stamp2]
      in chatSessions(sessionId \<mapsto> (if length history > 20 then last_n 20 history else history)))"





section \<open>Answer generation and its guardrail\<close>

text \<open>
  \<open>generate_answer\<close> (\<open>src/core/llm_client.py\<close>) builds a prompt, calls the model over
  HTTP with its retries, and turns what happened into a dictionary. What happened is a
  parameter: the model answered, the call gave up with an error, or building or sending
  the prompt raised.
\<close>

datatype llm_outcome = Answered string | Unavailable string | Crashed string

record source =
  title :: string
  filename :: string
  url :: string
  snippet :: string

definition extract_sources :: "passage list \<Rightarrow> source list" where
  "extract_sources retrievedContext =
     map (\<lambda>contextItem.
            \<lparr>title = documentTitle contextItem, filename = fileName contextItem,
             url = documentUrl contextItem,
             snippet = take 200 (content contextItem) @ ''...''\<rparr>)
         retrievedContext"

text \<open>The dictionary \<open>generate_answer\<close> returns; a key that can be absent is an option.\<close>

record generation =
  gen_success :: bool
  gen_answer :: string
  gen_error :: "string option"
  gen_sources :: "source list option"
  gen_contextUsed :: "bool option"

definition generate_answer :: "llm_outcome \<Rightarrow> passage list \<Rightarrow> generation" where
  "generate_answer outcome retrievedContext =
     (case outcome of
        Answered text \<Rightarrow>
          \<lparr>gen_success = True, gen_answer = text, gen_error = None,
           gen_sources = Some (extract_sources retrievedContext),
           gen_contextUsed = Some (length retrievedContext > 0)\<rparr>
      | Unavailable err \<Rightarrow>
          \<lparr>gen_success = False,
           gen_answer = ''I apologize, but I'm unable to generate an answer right now. Please try again.'',
           gen_error = Some err, gen_sources = None, gen_contextUsed = None\<rparr>
      | Crashed err \<Rightarrow>
          \<lparr>gen_success = False,
           gen_answer = ''I apologize, but I encountered an error while generating the answer.'',
           gen_error = Some err, gen_sources = None, gen_contextUsed = None\<rparr>)"

text \<open>\<open>validate_generated_answer\<close> (\<open>src/services/guardrails.py\<close>).\<close>

definition validate_generated_answer :: "string \<Rightarrow> passage list \<Rightarrow> string" where
  "validate_generated_answer generatedAnswer retrievedContext =
     (if generatedAnswer = [] \<or> strip generatedAnswer = []
      then ''I apologize, but I couldn't generate a proper response. Please try rephrasing your question.''
      else if retrievedContext = [] \<and> \<not> contains ''I don't know'' generatedAnswer
                \<and> \<not> contains ''don't have'' generatedAnswer
      then ''I don't have enough information in the available documents to answer that question.''
      else if harmful (lower generatedAnswer)
      then ''I cannot provide that information. Please ask about something else.''
      else if retrievedContext \<noteq> [] \<and> \<not> contains ''document'' (lower generatedAnswer)
                \<and> \<not> contains ''source'' (lower generatedAnswer)
      then generatedAnswer @ '' (Based on: ''
             @ join '', '' (map documentTitle (take 2 retrievedContext)) @ '')''
      else generatedAnswer)"

section \<open>The pipeline (\<open>src/services/retrieval_service.py\<close>)\<close>

text \<open>
  What one call of \<open>process_query\<close> finds outside the service: the digest function, the
  search engine (\<open>hybrid_search\<close> catches its own exceptions and returns a list), the
  re-ranker's model, the language model, the order in which \<open>list(set(...))\<close> lists a
  set, the readings of \<open>time.time()\<close> at the cache lookup and at the cache store, and the
  two time stamps of the session update.
\<close>

record world =
  w_md5 :: "string \<Rightarrow> string"
  w_search :: "string \<Rightarrow> int \<Rightarrow> string \<Rightarrow> passage list"
  w_enabled :: bool
  w_predict :: "(string \<times> string) list \<Rightarrow> py_error + real list"
  w_llm :: "string \<Rightarrow> passage list \<Rightarrow> chat_turn list \<Rightarrow> llm_outcome"
  w_set_list :: "string list \<Rightarrow> string list"
  w_time_get :: real
  w_time_set :: real
  w_stamp_user :: string
  w_stamp_assistant :: string

text \<open>
  The result dictionary; a key that some branch leaves out is an option. \<open>res_error\<close> is
  a reason string or the text of a caught exception.
\<close>

datatype error_info = Reason string | Caught py_error

record pipeline_result =
  res_success :: bool
  res_error :: "error_info option"
  res_answer :: string
  res_sources :: "source list"
  res_contextUsed :: "bool option"
  res_searchMode :: "string option"
  res_retrievedCount :: "nat option"
  res_sessionId :: "string option"
  res_cached :: "bool option"
  res_reranked :: "bool option"

text \<open>The service object: its cache and its sessions.\<close>

record service =
  svc_cache :: "pipeline_result SimpleCacheManager"
  chatSessions :: sessions

text \<open>The calls a request makes to the search engine and to the language model.\<close>

datatype event =
  Retrieved string int string
  | Generated string "passage list" "chat_turn list" llm_outcome

definition empty_query_result :: pipeline_result where
  "empty_query_result =
     \<lparr>res_success = False, res_error = Some (Reason ''Empty query provided''),
      res_answer = ''Please provide a valid question.'', res_sources = [],
      res_contextUsed = None, res_searchMode = None, res_retrievedCount = None,
      res_sessionId = None, res_cached = None, res_reranked = None\<rparr>"

definition rejected_result :: "string \<Rightarrow> pipeline_result" where
  "rejected_result why =
     \<lparr>res_success = False, res_error = Some (Reason why),
      res_answer = ''I cannot process this query due to content guidelines.'', res_sources = [],
      res_contextUsed = None, res_searchMode = None, res_retrievedCount = None,
      res_sessionId = None, res_cached = None, res_reranked = None\<rparr>"

definition no_results_result :: "string \<Rightarrow> string \<Rightarrow> pipeline_result" where
  "no_results_result searchMode sessionId =
     \<lparr>res_success = True, res_error = None,
      res_answer = ''I couldn't find any relevant information to answer your question. Please try rephrasing or ask about something else.'',
      res_sources = [], res_contextUsed = Some False, res_searchMode = Some searchMode,
      res_retrievedCount = Some 0, res_sessionId = Some sessionId, res_cached = None,
      res_reranked = None\<rparr>"

definition exception_result :: "py_error \<Rightarrow> string \<Rightarrow> string \<Rightarrow> pipeline_result" where
  "exception_result e searchMode sessionId =
     \<lparr>res_success = False, res_error = Some (Caught e),
      res_answer = ''I apologize, but I encountered an error while processing your query. Please try again.'',
      res_sources = [], res_contextUsed = None, res_searchMode = Some searchMode,
      res_retrievedCount = None, res_sessionId = Some sessionId, res_cached = None,
      res_reranked = None\<rparr>"

text \<open>\<open>_enhance_query_with_context\<close>.\<close>

definition enhance_query_with_context ::
  "(string list \<Rightarrow> string list) \<Rightarrow> string \<Rightarrow> chat_turn list \<Rightarrow> string" where
  "enhance_query_with_context set_list query chatHistory =
     (if chatHistory = [] then query
      else
        (let recentMessages = last_n 6 chatHistory;
             contextTerms =
               concat (map (\<lambda>message.
                              if role message = ''user''
                              then filter (\<lambda>word. length word > 3) (split (turn_content message))
                              else [])
                           recentMessages)
         in if contextTerms \<noteq> []
            then query @ '' '' @ join '' '' (take 3 (set_list contextTerms))
            else query))"

text \<open>\<open>_simple_rerank_results\<close>.\<close>

definition simple_rerank_results :: "passage list \<Rightarrow> passage list" where
  "simple_rerank_results results = sorted_desc score results"

text \<open>
  Step 11 and the \<open>except\<close> clause: the result is stored, and an exception of the store
  is turned into the error result. The service keeps what was done before the exception.
\<close>

definition store_result ::
  "world \<Rightarrow> service \<Rightarrow> string \<Rightarrow> string \<Rightarrow> string \<Rightarrow> pipeline_result \<Rightarrow> event list
     \<Rightarrow> pipeline_result \<times> service \<times> event list" where
  "store_result w self userQuery sessionId searchMode result calls =
     (case cache_set (w_md5 w) (svc_cache self) userQuery searchMode result (w_time_set w) of
        Inl e \<Rightarrow> (exception_result e searchMode sessionId, self, calls)
      | Inr stored \<Rightarrow> (result, self\<lparr>svc_cache := stored\<rparr>, calls))"

text \<open>Step 6: the re-ranker, or the fallback that sorts by the engine's score.\<close>

definition rank_step :: "world \<Rightarrow> bool \<Rightarrow> string \<Rightarrow> passage list \<Rightarrow> int \<Rightarrow> passage list" where
  "rank_step w enableReranking contextualQuery retrievalResults maxResults =
     (if enableReranking \<and> length retrievalResults > 1
      then rerank_results (w_enabled w) (w_predict w) contextualQuery retrievalResults maxResults
      else slice_to (simple_rerank_results retrievalResults) maxResults)"

text \<open>Steps 7 to 11: generation, session update, output guardrail, result.\<close>

definition answer_from ::
  "world \<Rightarrow> service \<Rightarrow> string \<Rightarrow> string \<Rightarrow> string \<Rightarrow> int \<Rightarrow> bool \<Rightarrow> string
     \<Rightarrow> chat_turn list \<Rightarrow> passage list \<Rightarrow> event list
     \<Rightarrow> pipeline_result \<times> service \<times> event list" where
  "answer_from w self userQuery sessionId searchMode maxResults enableReranking
       contextualQuery chatHistory retrievalResults calls =
     (let rankedResults =
            rank_step w enableReranking contextualQuery retrievalResults maxResults;
          outcome = w_llm w userQuery rankedResults chatHistory;
          generationResult = generate_answer outcome rankedResults;
          calls = calls @ [Generated userQuery rankedResults chatHistory outcome];
          self = (if gen_success generationResult
                  then self\<lparr>chatSessions :=
                         update_chat_session (chatSessions self) sessionId userQuery
                           (gen_answer generationResult) (w_stamp_user w) (w_stamp_assistant w)\<rparr>
                  else self);
          finalAnswer = (if gen_success generationResult
                         then validate_generated_answer (gen_answer generationResult) rankedResults
                         else gen_answer generationResult);
          result =
            \<lparr>res_success = gen_success generationResult, res_error = None,
             res_answer = finalAnswer,
             res_sources = (case gen_sources generationResult of None \<Rightarrow> [] | Some s \<Rightarrow> s),
             res_contextUsed =
               Some (case gen_contextUsed generationResult of None \<Rightarrow> False | Some b \<Rightarrow> b),
             res_searchMode = Some searchMode,
             res_retrievedCount = Some (length rankedResults),
             res_sessionId = Some sessionId, res_cached = Some False,
             res_reranked = Some (enableReranking \<and> length retrievalResults > 1)\<rparr>
      in if res_success result
         then store_result w self userQuery sessionId searchMode result calls
         else (result, self, calls))"

text \<open>Steps 3 to 5: optimization, context enhancement, retrieval.\<close>

definition retrieve_and_answer ::
  "world \<Rightarrow> service \<Rightarrow> string \<Rightarrow> string \<Rightarrow> string \<Rightarrow> int \<Rightarrow> bool
     \<Rightarrow> pipeline_result \<times> service \<times> event list" where
  "retrieve_and_answer w self userQuery sessionId searchMode maxResults enableReranking =
     (let optimizedQuery = optimize_query userQuery;
          chatHistory = get_chat_history (chatSessions self) sessionId;
          contextualQuery = enhance_query_with_context (w_set_list w) optimizedQuery chatHistory;
          topResults = (if enableReranking then maxResults * 3 else maxResults);
          retrievalResults = w_search w contextualQuery topResults searchMode;
          calls = [Retrieved contextualQuery topResults searchMode]
      in if retrievalResults = []
         then store_result w self userQuery sessionId searchMode
                (no_results_result searchMode sessionId) calls
         else answer_from w self userQuery sessionId searchMode maxResults enableReranking
                contextualQuery chatHistory retrievalResults calls)"

text \<open>
  \<open>process_query\<close>: the result, the service after the call, and the calls made to the
  search engine and the language model, in order.
\<close>

definition process_query ::
  "world \<Rightarrow> service \<Rightarrow> string \<Rightarrow> string \<Rightarrow> string \<Rightarrow> int \<Rightarrow> bool
     \<Rightarrow> pipeline_result \<times> service \<times> event list" where
  "process_query w self userQuery sessionId searchMode maxResults enableReranking =
     (if userQuery = [] \<or> strip userQuery = [] then (empty_query_result, self, [])
      else
        (case cache_get (w_md5 w) (svc_cache self) userQuery searchMode (w_time_get w) of
           (Some cached_result, looked) \<Rightarrow>
             (cached_result,
              self\<lparr>svc_cache := looked\<lparr>hit_count := hit_count looked + 1\<rparr>\<rparr>, [])
         | (None, looked) \<Rightarrow>
             (let self = self\<lparr>svc_cache := looked\<lparr>total_requests := total_requests looked + 1\<rparr>\<rparr>;
                  validationResult = validate_query userQuery
              in if \<not> isValid validationResult
                 then (rejected_result (reason validationResult), self, [])
                 else retrieve_and_answer w self userQuery sessionId searchMode maxResults
                        enableReranking)))"

text \<open>
  The service as \<open>RagRetrievalService.__init__\<close> builds it: a cache with the default
  capacity and TTL, and no sessions.
\<close>

definition new_service :: service where
  "new_service = \<lparr>svc_cache = new_cache 100 300, chatSessions = Map.empty\<rparr>"

text \<open>
  A concrete world for running the model on examples: the digest is the identity, the
  search engine finds one passage, the re-ranker has no model, and the language model's
  outcome and the two readings of the clock are given.
\<close>

definition sample_passage :: passage where
  "sample_passage =
     \<lparr>score = 1, chunkId = ''c1'', content = ''Hold the button for five seconds.'',
      documentTitle = ''Guide'', documentUrl = ''http://example.org/guide'',
      fileName = ''guide.pdf'', chunkIndex = 0, rerank_score = None\<rparr>"

definition sample_world :: "llm_outcome \<Rightarrow> real \<Rightarrow> real \<Rightarrow> world" where
  "sample_world outcome t_get t_set =
     \<lparr>w_md5 = (\<lambda>s. s), w_search = (\<lambda>queryText topResults searchMode. [sample_passage]),
      w_enabled = False, w_predict = (\<lambda>pairs. Inl (RuntimeError ''no model'')),
      w_llm = (\<lambda>userQuery retrievedContext chatHistory. outcome),
      w_set_list = remdups, w_time_get = t_get, w_time_set = t_set,
      w_stamp_user = ''2024-01-01T00:00:00'', w_stamp_assistant = ''2024-01-01T00:00:01''\<rparr>"

section \<open>Properties of the cache\<close>

lemma map_of_update_same: "map_of (AList.update k v al) k = Some v"
  by (simp add: update_conv')

lemma update_fresh: "k \<notin> fst ` set al \<Longrightarrow> AList.update k v al = al @ [(k, v)]"
  by (induction al) auto

lemma evict_if_full_succeeds:
  assumes "0 < max_size self \<or> cache self \<noteq> []"
  shows "\<exists>kept. evict_if_full self = Inr kept"
proof (cases "cache self")
  case Nil
  with assms show ?thesis by (simp add: evict_if_full_def)
next
  case (Cons p rest)
  then show ?thesis
    by (cases p) (simp add: evict_if_full_def oldest_key_def)
qed

lemma cache_get_fresh:
  assumes "map_of (cache c) (get_key md5 q m) = Some item"
    and "now - timestamp item < real_of_int (ttl_seconds c)"
  shows "cache_get md5 c q m now = (Some (data item), c)"
  using assms by (simp add: cache_get_def)

lemma cache_get_expired:
  assumes "map_of (cache c) (get_key md5 q m) = Some item"
    and "\<not> now - timestamp item < real_of_int (ttl_seconds c)"
  shows "cache_get md5 c q m now = (None, c\<lparr>cache := AList.delete (get_key md5 q m) (cache c)\<rparr>)"
  using assms by (simp add: cache_get_def)

text \<open>
  Claim C4. Where the cache has a positive capacity, \<open>set\<close> succeeds, and a \<open>get\<close> of the
  same query and mode at a clock reading less than the TTL after the store returns
  exactly the stored value and leaves the cache as it is; a \<open>get\<close> at a reading at least
  the TTL after the store returns \<open>None\<close> and deletes the entry, so that the key is no
  longer in the cache.
\<close>

theorem cache_store_then_lookup:
  assumes "0 < max_size self"
  shows "\<exists>c1. cache_set md5 self q m d t1 = Inr c1 \<and>
           (t2 - t1 < real_of_int (ttl_seconds self) \<longrightarrow>
              cache_get md5 c1 q m t2 = (Some d, c1)) \<and>
           (\<not> t2 - t1 < real_of_int (ttl_seconds self) \<longrightarrow>
              cache_get md5 c1 q m t2 =
                (None, c1\<lparr>cache := AList.delete (get_key md5 q m) (cache c1)\<rparr>) \<and>
              map_of (AList.delete (get_key md5 q m) (cache c1)) (get_key md5 q m) = None)"
proof -
  from assms obtain kept where kept: "evict_if_full self = Inr kept"
    using evict_if_full_succeeds by blast
  define item where "item = \<lparr>data = d, timestamp = t1\<rparr>"
  define c1 where "c1 = self\<lparr>cache := AList.update (get_key md5 q m) item kept\<rparr>"
  have stored: "cache_set md5 self q m d t1 = Inr c1"
    by (simp add: cache_set_def kept c1_def item_def)
  have found: "map_of (cache c1) (get_key md5 q m) = Some item"
    by (simp add: c1_def map_of_update_same)
  have ttl: "ttl_seconds c1 = ttl_seconds self"
    by (simp add: c1_def)
  have hit: "cache_get md5 c1 q m t2 = (Some d, c1)"
    if "t2 - t1 < real_of_int (ttl_seconds self)"
    using cache_get_fresh [OF found] that by (simp add: item_def ttl)
  have miss: "cache_get md5 c1 q m t2 =
      (None, c1\<lparr>cache := AList.delete (get_key md5 q m) (cache c1)\<rparr>)"
    if "\<not> t2 - t1 < real_of_int (ttl_seconds self)"
    using cache_get_expired [OF found] that by (simp add: item_def ttl)
  have gone: "map_of (AList.delete (get_key md5 q m) (cache c1)) (get_key md5 q m) = None"
    by (simp add: delete_conv')
  from stored hit miss gone show ?thesis by blast
qed

theorem cache_store_then_lookup_witness:
  "(0::int) < max_size (new_cache 100 300 :: nat SimpleCacheManager) \<and>
   (\<exists>c1. cache_set (\<lambda>s. s) (new_cache 100 300) ''What is RAG?'' ''hybrid'' (7::nat) 1000 = Inr c1 \<and>
      cache_get (\<lambda>s. s) c1 ''What is RAG?'' ''hybrid'' 1299 = (Some 7, c1) \<and>
      cache_get (\<lambda>s. s) c1 ''What is RAG?'' ''hybrid'' 1300 =
        (None, c1\<lparr>cache := AList.delete (get_key (\<lambda>s. s) ''What is RAG?'' ''hybrid'') (cache c1)\<rparr>))"
  using cache_store_then_lookup [of "new_cache 100 300 :: nat SimpleCacheManager" "\<lambda>s. s"
      "''What is RAG?''" "''hybrid''" 7 1000 1299]
    cache_store_then_lookup [of "new_cache 100 300 :: nat SimpleCacheManager" "\<lambda>s. s"
      "''What is RAG?''" "''hybrid''" 7 1000 1300]
  by (auto simp add: new_cache_def)

lemma oldest_from_split:
  "(oldest_from k t kvs = k \<and> (\<forall>e \<in> set kvs. t \<le> timestamp (snd e))) \<or>
   (\<exists>pre v post. kvs = pre @ (oldest_from k t kvs, v) # post \<and> timestamp v < t \<and>
        (\<forall>e \<in> set pre. timestamp v < timestamp (snd e)) \<and>
        (\<forall>e \<in> set post. timestamp v \<le> timestamp (snd e)))"
proof (induction k t kvs rule: oldest_from.induct)
  case (1 k t)
  then show ?case by simp
next
  case (2 k t k' v kvs)
  show ?case
  proof (cases "timestamp v < t")
    case True
    define r where "r = oldest_from k' (timestamp v) kvs"
    have eq: "oldest_from k t ((k', v) # kvs) = r"
      using True by (simp add: r_def)
    from 2(1) [OF True] consider
      (same) "r = k'" "\<forall>e \<in> set kvs. timestamp v \<le> timestamp (snd e)"
      | (later) pre w post where "kvs = pre @ (r, w) # post" "timestamp w < timestamp v"
          "\<forall>e \<in> set pre. timestamp w < timestamp (snd e)"
          "\<forall>e \<in> set post. timestamp w \<le> timestamp (snd e)"
      unfolding r_def by blast
    then show ?thesis
    proof cases
      case same
      have "(k', v) # kvs = [] @ (r, v) # kvs" by (simp add: same(1))
      moreover have "\<forall>e \<in> set []. timestamp v < timestamp (snd e)" by simp
      ultimately show ?thesis unfolding eq using True same(2) by blast
    next
      case later
      have "(k', v) # kvs = ((k', v) # pre) @ (r, w) # post" by (simp add: later(1))
      moreover have "\<forall>e \<in> set ((k', v) # pre). timestamp w < timestamp (snd e)"
        using later(2,3) by simp
      moreover have "timestamp w < t" using later(2) True by simp
      ultimately show ?thesis unfolding eq using later(4) by blast
    qed
  next
    case False
    define r where "r = oldest_from k t kvs"
    have eq: "oldest_from k t ((k', v) # kvs) = r"
      using False by (simp add: r_def)
    from 2(2) [OF False] consider
      (same) "r = k" "\<forall>e \<in> set kvs. t \<le> timestamp (snd e)"
      | (later) pre w post where "kvs = pre @ (r, w) # post" "timestamp w < t"
          "\<forall>e \<in> set pre. timestamp w < timestamp (snd e)"
          "\<forall>e \<in> set post. timestamp w \<le> timestamp (snd e)"
      unfolding r_def by blast
    then show ?thesis
    proof cases
      case same
      have "\<forall>e \<in> set ((k', v) # kvs). t \<le> timestamp (snd e)"
        using False same(2) by simp
      then show ?thesis unfolding eq using same(1) by blast
    next
      case later
      have "(k', v) # kvs = ((k', v) # pre) @ (r, w) # post" by (simp add: later(1))
      moreover have "\<forall>e \<in> set ((k', v) # pre). timestamp w < timestamp (snd e)"
        using later(2,3) False by simp
      ultimately show ?thesis unfolding eq using later(2,4) by blast
    qed
  qed
qed

lemma oldest_key_split:
  assumes "kvs \<noteq> []"
  shows "\<exists>pre k v post. oldest_key kvs = Inr k \<and> kvs = pre @ (k, v) # post \<and>
           (\<forall>e \<in> set pre. timestamp v < timestamp (snd e)) \<and>
           (\<forall>e \<in> set post. timestamp v \<le> timestamp (snd e))"
proof -
  from assms obtain k0 v0 rest where kvs: "kvs = (k0, v0) # rest"
    by (cases kvs) auto
  define r where "r = oldest_from k0 (timestamp v0) rest"
  have key: "oldest_key kvs = Inr r"
    by (simp add: kvs oldest_key_def r_def)
  from oldest_from_split [of k0 "timestamp v0" rest] consider
    (same) "r = k0" "\<forall>e \<in> set rest. timestamp v0 \<le> timestamp (snd e)"
    | (later) pre w post where "rest = pre @ (r, w) # post" "timestamp w < timestamp v0"
        "\<forall>e \<in> set pre. timestamp w < timestamp (snd e)"
        "\<forall>e \<in> set post. timestamp w \<le> timestamp (snd e)"
    unfolding r_def by blast
  then show ?thesis
  proof cases
    case same
    have "kvs = [] @ (r, v0) # rest" by (simp add: kvs same(1))
    moreover have "\<forall>e \<in> set []. timestamp v0 < timestamp (snd e)" by simp
    ultimately show ?thesis using key same(2) by blast
  next
    case later
    have "kvs = ((k0, v0) # pre) @ (r, w) # post" by (simp add: kvs later(1))
    moreover have "\<forall>e \<in> set ((k0, v0) # pre). timestamp w < timestamp (snd e)"
      using later(2,3) by simp
    ultimately show ?thesis using key later(4) by blast
  qed
qed

lemma delete_absent: "k \<notin> fst ` set al \<Longrightarrow> AList.delete k al = al"
  by (induction al) auto

lemma delete_split_distinct:
  assumes "distinct (map fst (pre @ (k, v) # post))"
  shows "AList.delete k (pre @ (k, v) # post) = pre @ post"
proof -
  have app: "AList.delete k (xs @ ys) = AList.delete k xs @ AList.delete k ys" for xs ys :: "('a \<times> 'b) list"
    by (simp add: AList.delete_eq)
  from assms have "k \<notin> fst ` set pre" "k \<notin> fst ` set post" by auto
  then have "AList.delete k pre = pre" "AList.delete k post = post"
    by (simp_all add: delete_absent)
  then show ?thesis
    by (simp add: app)
qed

lemma op_entry_fst: "fst (op_entry md5 op) = op_key md5 op"
  by (cases op) (simp add: op_entry_def op_key_def)

lemma op_entry_time: "timestamp (snd (op_entry md5 op)) = op_time op"
  by (cases op) (simp add: op_entry_def op_time_def)

lemma cache_set_room:
  assumes "int (length (cache c)) < max_size c"
    and "op_key md5 (q, m, d, t) \<notin> fst ` set (cache c)"
  shows "cache_set md5 c q m d t = Inr (c\<lparr>cache := cache c @ [op_entry md5 (q, m, d, t)]\<rparr>)"
  using assms
  by (simp add: cache_set_def evict_if_full_def update_fresh op_entry_def op_key_def)

lemma store_all_room:
  assumes "distinct (map (op_key md5) ops)"
    and "\<forall>op \<in> set ops. op_key md5 op \<notin> fst ` set (cache c)"
    and "int (length (cache c)) + int (length ops) \<le> max_size c"
  shows "store_all md5 c ops = Inr (c\<lparr>cache := cache c @ map (op_entry md5) ops\<rparr>)"
  using assms
proof (induction ops arbitrary: c)
  case Nil
  then show ?case by simp
next
  case (Cons op ops)
  obtain q m d t where op: "op = (q, m, d, t)" by (cases op) auto
  let ?c' = "c\<lparr>cache := cache c @ [op_entry md5 op]\<rparr>"
  have step: "cache_set md5 c q m d t = Inr ?c'"
    unfolding op using Cons.prems by (intro cache_set_room) (auto simp: op)
  have fresh: "\<forall>x \<in> set ops. op_key md5 x \<notin> fst ` set (cache ?c')"
  proof
    fix x assume x: "x \<in> set ops"
    from Cons.prems(1) have "op_key md5 op \<notin> op_key md5 ` set ops" by simp
    with x have "op_key md5 x \<noteq> op_key md5 op" by (metis imageI)
    moreover from x Cons.prems(2) have "op_key md5 x \<notin> fst ` set (cache c)" by simp
    ultimately show "op_key md5 x \<notin> fst ` set (cache ?c')"
      by (simp add: op_entry_fst)
  qed
  have "store_all md5 ?c' ops = Inr (?c'\<lparr>cache := cache ?c' @ map (op_entry md5) ops\<rparr>)"
    using Cons.prems fresh by (intro Cons.IH) simp_all
  with step show ?case by (simp add: op)
qed

lemma store_all_append:
  "store_all md5 c (xs @ ys) =
     (case store_all md5 c xs of Inl e \<Rightarrow> Inl e | Inr c' \<Rightarrow> store_all md5 c' ys)"
  by (induction md5 c xs rule: store_all.induct) (auto split: sum.splits)

lemma op_entry_keys: "map fst (map (op_entry md5) xs) = map (op_key md5) xs"
  by (simp add: op_entry_fst)

text \<open>
  Claim C5 (as amended). Start from an empty cache of capacity \<open>C > 0\<close> and store
  \<open>C + 1\<close> entries whose keys are distinct, at any clock readings. Every store succeeds
  and exactly \<open>C\<close> entries are left: all the entries stored but one, in the order of
  their insertion. The absent entry, the victim, is one of the first \<open>C\<close> stored: every
  entry stored before it has a strictly greater timestamp, and every other one of the
  first \<open>C\<close> has a timestamp at least as great. So the victim is the first entry, in
  insertion order, whose timestamp is least among the first \<open>C\<close>; the entry stored last
  is never the victim, whatever its timestamp.
\<close>

theorem cache_capacity:
  assumes "0 < C"
    and "int (length ops) = C + 1"
    and "distinct (map (op_key md5) ops)"
  shows "\<exists>before victim after final c.
           ops = before @ victim # after @ [final] \<and>
           store_all md5 (new_cache C ttl) ops = Inr c \<and>
           cache c = map (op_entry md5) (before @ after @ [final]) \<and>
           int (length (cache c)) = C \<and>
           map_of (cache c) (op_key md5 victim) = None \<and>
           (\<forall>op \<in> set before. op_time victim < op_time op) \<and>
           (\<forall>op \<in> set after. op_time victim \<le> op_time op)"
proof -
  from assms(1,2) have "ops \<noteq> []" by auto
  define firsts where "firsts = butlast ops"
  define final where "final = last ops"
  have split: "ops = firsts @ [final]"
    using \<open>ops \<noteq> []\<close> by (simp add: firsts_def final_def)
  obtain q m d t where final: "final = (q, m, d, t)" by (cases final) auto
  have len: "int (length firsts) = C"
    using assms(2) by (simp add: split)
  with assms(1) have nonempty: "firsts \<noteq> []" by auto
  have dist: "distinct (map (op_key md5) firsts)"
    and final_new: "op_key md5 final \<notin> op_key md5 ` set firsts"
    using assms(3) by (auto simp: split)
  define c0 :: "'a SimpleCacheManager" where "c0 = new_cache C ttl"
  define c1 where "c1 = c0\<lparr>cache := map (op_entry md5) firsts\<rparr>"
  have filled: "store_all md5 c0 firsts = Inr c1"
    using store_all_room [of md5 firsts c0] dist len
    by (simp add: c0_def c1_def new_cache_def)
  from nonempty have "cache c1 \<noteq> []" by (simp add: c1_def)
  from oldest_key_split [OF this] obtain pre k v post where
    oldest: "oldest_key (cache c1) = Inr k" and
    parts: "cache c1 = pre @ (k, v) # post" and
    pre: "\<forall>e \<in> set pre. timestamp v < timestamp (snd e)" and
    post: "\<forall>e \<in> set post. timestamp v \<le> timestamp (snd e)"
    by blast
  from parts have "map (op_entry md5) firsts = pre @ (k, v) # post"
    by (simp add: c1_def)
  then obtain before victim after where
    firsts: "firsts = before @ victim # after" and
    pre_eq: "pre = map (op_entry md5) before" and
    victim: "(k, v) = op_entry md5 victim" and
    post_eq: "post = map (op_entry md5) after"
    by (auto simp: map_eq_append_conv map_eq_Cons_conv)
  have k: "k = op_key md5 victim"
    using victim op_entry_fst [of md5 victim] by (metis fst_conv)
  have v: "timestamp v = op_time victim"
    using victim op_entry_time [of md5 victim] by (metis snd_conv)
  note keys = op_entry_keys [of md5]
  have full: "max_size c1 \<le> int (length (cache c1))"
    using len by (simp add: c1_def c0_def new_cache_def)
  have c1_cache: "cache c1 = map (op_entry md5) firsts"
    by (simp add: c1_def)
  have "distinct (map fst (cache c1))"
    unfolding c1_cache keys by (rule dist)
  then have "distinct (map fst (pre @ (k, v) # post))"
    unfolding parts .
  from delete_split_distinct [OF this]
  have del: "AList.delete k (cache c1) = pre @ post"
    by (simp add: parts)
  have evict: "evict_if_full c1 = Inr (pre @ post)"
    using full by (simp add: evict_if_full_def oldest del)
  have rest_keys: "fst ` set (pre @ post) = op_key md5 ` set (before @ after)"
    using keys [of "before @ after"] by (metis pre_eq post_eq map_append set_map)
  have fresh: "get_key md5 q m \<notin> fst ` set (pre @ post)"
  proof -
    have "op_key md5 final = get_key md5 q m" by (simp add: final op_key_def)
    moreover have "set (before @ after) \<subseteq> set firsts" by (auto simp: firsts)
    ultimately show ?thesis using final_new rest_keys by auto
  qed
  define c2 where "c2 = c1\<lparr>cache := map (op_entry md5) (before @ after @ [final])\<rparr>"
  have last_step: "cache_set md5 c1 q m d t = Inr c2"
    using update_fresh [OF fresh]
    by (simp add: cache_set_def evict c2_def final op_entry_def pre_eq post_eq)
  have "store_all md5 c0 (firsts @ [final]) = Inr c2"
    by (subst store_all_append) (simp add: filled final last_step)
  then have run: "store_all md5 (new_cache C ttl) ops = Inr c2"
    using split by (simp only: c0_def)
  have shape: "ops = before @ victim # after @ [final]"
    by (simp add: split firsts)
  have size: "int (length (cache c2)) = C"
    using len by (simp add: c2_def firsts)
  have gone: "map_of (cache c2) (op_key md5 victim) = None"
  proof -
    have "op_key md5 victim \<notin> op_key md5 ` set (before @ after @ [final])"
      using assms(3) unfolding shape by auto
    then have "op_key md5 victim \<notin> fst ` set (cache c2)"
      using keys [of "before @ after @ [final]"] by (metis c2_def set_map
          SimpleCacheManager.select_convs(1) SimpleCacheManager.surjective
          SimpleCacheManager.update_convs(1))
    then show ?thesis
      by (simp add: map_of_eq_None_iff)
  qed
  have before_later: "\<forall>op \<in> set before. op_time victim < op_time op"
    using pre by (simp add: pre_eq v op_entry_time)
  have after_later: "\<forall>op \<in> set after. op_time victim \<le> op_time op"
    using post by (simp add: post_eq v op_entry_time)
  have "cache c2 = map (op_entry md5) (before @ after @ [final])"
    by (simp add: c2_def)
  with shape run size gone before_later after_later show ?thesis
    by blast
qed


theorem cache_capacity_witness:
  "(0::int) < 2 \<and>
   distinct (map (op_key (\<lambda>s. s))
      [(''alpha'', ''hybrid'', 1::nat, 30), (''beta'', ''hybrid'', 2, 10), (''gamma'', ''hybrid'', 3, 20)]) \<and>
   store_all (\<lambda>s. s) (new_cache 2 300)
      [(''alpha'', ''hybrid'', 1::nat, 30), (''beta'', ''hybrid'', 2, 10), (''gamma'', ''hybrid'', 3, 20)] =
     Inr \<lparr>cache = [(''alpha_hybrid'', \<lparr>data = 1, timestamp = 30\<rparr>),
                     (''gamma_hybrid'', \<lparr>data = 3, timestamp = 20\<rparr>)],
          max_size = 2, ttl_seconds = 300, hit_count = 0, total_requests = 0\<rparr>"
  using cache_capacity [of 2
      "[(''alpha'', ''hybrid'', 1::nat, 30), (''beta'', ''hybrid'', 2, 10), (''gamma'', ''hybrid'', 3, 20)]"
      "\<lambda>s. s" 300]
  by (simp add: op_key_def get_key_def strip_def lower_def lower_char_def is_space_def
      new_cache_def cache_set_def evict_if_full_def oldest_key_def)

text \<open>
  The claim as it was stated fails in two places. With a clock that was set back before
  the last store, the entry stored last has the oldest timestamp and stays, while an entry
  with a newer timestamp is evicted: storing at readings 10, 20 and 5 into a cache of
  capacity 2 evicts the entry of reading 10 and keeps the one of reading 5. And with
  capacity 0 the first store raises \<open>ValueError\<close>.
\<close>

theorem cache_capacity_counterexample:
  "store_all id (new_cache 2 300)
      [(''alpha'', ''hybrid'', 1::nat, 10), (''beta'', ''hybrid'', 2, 20), (''gamma'', ''hybrid'', 3, 5)] =
     Inr \<lparr>cache = [(''beta_hybrid'', \<lparr>data = 2, timestamp = 20\<rparr>),
                     (''gamma_hybrid'', \<lparr>data = 3, timestamp = 5\<rparr>)],
          max_size = 2, ttl_seconds = 300, hit_count = 0, total_requests = 0\<rparr> \<and>
   store_all id (new_cache 0 300) [(''alpha'', ''hybrid'', 1::nat, 10)] = Inl ValueError"
  by (simp add: get_key_def strip_def lower_def lower_char_def is_space_def
      new_cache_def cache_set_def evict_if_full_def oldest_key_def)

lemma map_of_update_delete:
  "map_of (AList.update key item (AList.delete k al)) x =
     (if x = key then Some item else if x = k then None else map_of al x)"
  by (simp add: update_conv' delete_conv')

text \<open>
  Claim C10 (as amended). In a cache whose size has reached its capacity, a store to a key
  that is already present still evicts first: the victim is the first entry, in the
  dictionary's order, whose timestamp is least, and the new item is then written. After
  the store the key holds the new item, the victim's key is absent unless it is the key
  that was written, and every other key holds what it held before. So when the oldest
  entry is another key, that unrelated entry is lost; when the oldest entry is the key
  being overwritten, no other entry changes.
\<close>

theorem overwrite_at_capacity:
  assumes "max_size self \<le> int (length (cache self))"
    and "map_of (cache self) (get_key md5 q m) = Some old"
  shows "\<exists>pre k v post c'.
           cache self = pre @ (k, v) # post \<and>
           (\<forall>e \<in> set pre. timestamp v < timestamp (snd e)) \<and>
           (\<forall>e \<in> set post. timestamp v \<le> timestamp (snd e)) \<and>
           cache_set md5 self q m d now = Inr c' \<and>
           cache c' = AList.update (get_key md5 q m) \<lparr>data = d, timestamp = now\<rparr>
                        (AList.delete k (cache self)) \<and>
           (\<forall>x. map_of (cache c') x =
                  (if x = get_key md5 q m then Some \<lparr>data = d, timestamp = now\<rparr>
                   else if x = k then None
                   else map_of (cache self) x))"
proof -
  from assms(2) have "cache self \<noteq> []" by auto
  from oldest_key_split [OF this] obtain pre k v post where
    oldest: "oldest_key (cache self) = Inr k" and
    parts: "cache self = pre @ (k, v) # post" and
    pre: "\<forall>e \<in> set pre. timestamp v < timestamp (snd e)" and
    post: "\<forall>e \<in> set post. timestamp v \<le> timestamp (snd e)"
    by blast
  define item where "item = \<lparr>data = d, timestamp = now\<rparr>"
  define c' where
    "c' = self\<lparr>cache := AList.update (get_key md5 q m) item (AList.delete k (cache self))\<rparr>"
  have evict: "evict_if_full self = Inr (AList.delete k (cache self))"
    using assms(1) by (simp add: evict_if_full_def oldest)
  have stored: "cache_set md5 self q m d now = Inr c'"
    by (simp add: cache_set_def evict c'_def item_def)
  have shape: "cache c' = AList.update (get_key md5 q m) item (AList.delete k (cache self))"
    by (simp add: c'_def)
  have view: "\<forall>x. map_of (cache c') x =
      (if x = get_key md5 q m then Some item else if x = k then None else map_of (cache self) x)"
    unfolding shape by (simp only: map_of_update_delete) simp
  from parts pre post stored shape view show ?thesis
    unfolding item_def by blast
qed

theorem overwrite_at_capacity_witness:
  "max_size \<lparr>cache = [(''alpha_hybrid'', \<lparr>data = 1::nat, timestamp = 20\<rparr>),
                       (''beta_hybrid'', \<lparr>data = 2, timestamp = 10\<rparr>)],
             max_size = 2, ttl_seconds = 300, hit_count = 0, total_requests = 0\<rparr> \<le> 2 \<and>
   cache_set (\<lambda>s. s)
      \<lparr>cache = [(''alpha_hybrid'', \<lparr>data = 1::nat, timestamp = 20\<rparr>),
                (''beta_hybrid'', \<lparr>data = 2, timestamp = 10\<rparr>)],
       max_size = 2, ttl_seconds = 300, hit_count = 0, total_requests = 0\<rparr>
      ''Alpha'' ''hybrid'' 3 30 =
     Inr \<lparr>cache = [(''alpha_hybrid'', \<lparr>data = 3, timestamp = 30\<rparr>)],
          max_size = 2, ttl_seconds = 300, hit_count = 0, total_requests = 0\<rparr>"
  using overwrite_at_capacity [of
      "\<lparr>cache = [(''alpha_hybrid'', \<lparr>data = 1::nat, timestamp = 20\<rparr>),
                (''beta_hybrid'', \<lparr>data = 2, timestamp = 10\<rparr>)],
        max_size = 2, ttl_seconds = 300, hit_count = 0, total_requests = 0\<rparr>"
      "\<lambda>s. s" "''Alpha''" "''hybrid''" "\<lparr>data = 1, timestamp = 20\<rparr>" 3 30]
  by (simp add: get_key_def strip_def lower_def lower_char_def is_space_def
      cache_set_def evict_if_full_def oldest_key_def)

text \<open>
  The claim as it was stated says that an unrelated entry is always removed. It is not
  when the overwritten key is itself the oldest entry: the other entry stays as it was.
\<close>

theorem overwrite_at_capacity_counterexample:
  "cache_set id
      \<lparr>cache = [(''alpha_hybrid'', \<lparr>data = 1::nat, timestamp = 10\<rparr>),
                (''beta_hybrid'', \<lparr>data = 2, timestamp = 20\<rparr>)],
       max_size = 2, ttl_seconds = 300, hit_count = 0, total_requests = 0\<rparr>
      ''Alpha'' ''hybrid'' 3 30 =
     Inr \<lparr>cache = [(''beta_hybrid'', \<lparr>data = 2, timestamp = 20\<rparr>),
                    (''alpha_hybrid'', \<lparr>data = 3, timestamp = 30\<rparr>)],
          max_size = 2, ttl_seconds = 300, hit_count = 0, total_requests = 0\<rparr>"
  by (simp add: get_key_def strip_def lower_def lower_char_def is_space_def
      cache_set_def evict_if_full_def oldest_key_def)

section \<open>Properties of the guardrails\<close>

text \<open>
  Claim C3 (as amended). \<open>validate_query\<close> rejects a query as off-topic exactly when the
  query passes the emptiness, length and harmful-content checks and its lower-cased text
  matches one of the off-topic patterns. Document-related terminology in the query plays
  no part: \<open>is_query_about_documents\<close> is not consulted.
\<close>

theorem off_topic_rejection:
  "validate_query query = \<lparr>isValid = False, reason = off_topic_reason\<rparr> \<longleftrightarrow>
     (strip query \<noteq> [] \<and> 3 \<le> length (strip query) \<and> length query \<le> 500 \<and>
      \<not> harmful (lower query) \<and>
      list_ex (\<lambda>w. search_word w False (lower query)) offTopicPatterns)"
proof -
  have pos: "offTopicMatches s > 0 \<longleftrightarrow> list_ex (\<lambda>w. search_word w False s) offTopicPatterns"
    for s
    by (auto simp: offTopicMatches_def re_search_def list_ex_iff filter_empty_conv)
  have empty: "strip [] = []" by (simp add: strip_def)
  show ?thesis
    by (auto simp: validate_query_def off_topic_reason_def pos [symmetric] empty)
qed

theorem off_topic_rejection_witness:
  "is_query_about_documents ''What does the weather report say?'' \<and>
   validate_query ''What does the weather report say?'' =
     \<lparr>isValid = False, reason = off_topic_reason\<rparr>"
  using off_topic_rejection [of "''What does the weather report say?''"]
  by (simp add: is_query_about_documents_def documentIndicators_def lower_def lower_char_def
      strip_def is_space_def is_word_def harmful_def harmfulPatterns_def re_search_def
      offTopicPatterns_def at_word_end_def)

text \<open>
  The claim as it was stated fails on a query that matches an off-topic pattern and also
  carries an on-topic signal: it is rejected as off-topic all the same.
\<close>

theorem off_topic_counterexample:
  "is_query_about_documents ''What does the weather report say?'' \<and>
   validate_query ''What does the weather report say?'' =
     \<lparr>isValid = False,
      reason = ''I can only answer questions about the uploaded documents. Please ask about the document content.''\<rparr>"
  by (simp add: is_query_about_documents_def documentIndicators_def lower_def lower_char_def
      strip_def is_space_def is_word_def harmful_def harmfulPatterns_def re_search_def
      offTopicPatterns_def at_word_end_def validate_query_def offTopicMatches_def
      off_topic_reason_def)

text \<open>
  Claim C6. For every non-empty query, \<open>optimize_query\<close> returns a non-empty string, and
  either the result is at least 30 percent as long as the query or it is the query itself.
  The original query is returned exactly when the optimized form is shorter than 30
  percent of the query; otherwise the optimized form is returned.
\<close>

theorem optimize_safety_valve:
  assumes "query \<noteq> []"
  shows "optimize_query query \<noteq> [] \<and>
         (3 * length query \<le> 10 * length (optimize_query query) \<or> optimize_query query = query) \<and>
         (10 * length (optimized_form query) < 3 * length query \<longrightarrow> optimize_query query = query) \<and>
         (\<not> 10 * length (optimized_form query) < 3 * length query \<longrightarrow>
            optimize_query query = optimized_form query)"
proof (cases "10 * length (optimized_form query) < 3 * length query")
  case True
  then have "optimize_query query = query"
    by (simp add: optimize_query_def)
  with assms True show ?thesis by simp
next
  case False
  then have eq: "optimize_query query = optimized_form query"
    by (simp add: optimize_query_def)
  from assms have "0 < length query" by simp
  with False have "0 < length (optimized_form query)" by linarith
  with False eq show ?thesis by auto
qed

theorem optimize_safety_valve_witness:
  "''The a an of'' \<noteq> [] \<and> optimized_form ''The a an of'' = [] \<and>
   optimize_query ''The a an of'' = ''The a an of'' \<and>
   ''Refund policy'' \<noteq> [] \<and> optimize_query ''Refund policy'' = ''refund policy''"
  using optimize_safety_valve [of "''The a an of''"] optimize_safety_valve [of "''Refund policy''"]
  by (simp add: optimized_form_def lower_def lower_char_def strip_def is_space_def is_word_def
      split_def stopWords_def question_words_def optimize_query_def)

section \<open>Properties of the session store\<close>

lemma last_n_short: "length xs \<le> k \<Longrightarrow> last_n k xs = xs"
  by (simp add: last_n_def)


lemma history_update_same:
  "get_chat_history (update_chat_session s sid u a s1 s2) sid =
     last_n 20 (get_chat_history s sid @ [user_turn u s1, assistant_turn a s2])"
  by (simp add: get_chat_history_def update_chat_session_def Let_def last_n_short)






section \<open>Properties of the re-ranker\<close>

lemma slice_to_nonneg: "0 \<le> k \<Longrightarrow> slice_to xs k = take (nat k) xs"
  by (simp add: slice_to_def)

lemma add_scores_unscored:
  "map (\<lambda>p. p\<lparr>rerank_score := None\<rparr>) (fst (add_scores results scores)) =
   map (\<lambda>p. p\<lparr>rerank_score := None\<rparr>) results"
  by (induction results scores rule: add_scores.induct) (auto split: prod.splits)

lemma slice_to_map: "slice_to (map f xs) k = map f (slice_to xs k)"
  by (simp add: slice_to_def take_map)

text \<open>
  Claim C7. Where the scoring model is unavailable or there is at most one candidate,
  \<open>rerank_results\<close> returns \<open>results[:top_k]\<close>, the candidates themselves in their
  order. Where the scoring call raises, it returns \<open>results[:top_k]\<close> as well. Where the
  model returns too few scores, the loop that attaches them raises part of the way and the
  result is again \<open>results[:top_k]\<close> in the provider's order, some of the passages
  carrying the score they were given. For \<open>top_k \<ge> 0\<close>, \<open>results[:top_k]\<close> is the
  first \<open>top_k\<close> candidates. The function returns a list in every case: no exception
  leaves it.
\<close>

theorem rerank_fallback:
  "(\<not> enabled \<or> length cs \<le> 1 \<longrightarrow>
      rerank_results enabled predict q cs k = slice_to cs k) \<and>
   (predict (map (\<lambda>c. (q, content c)) cs) = Inl e \<longrightarrow>
      rerank_results enabled predict q cs k = slice_to cs k) \<and>
   (predict (map (\<lambda>c. (q, content c)) cs) = Inr scores \<and> length scores < length cs \<longrightarrow>
      map (\<lambda>p. p\<lparr>rerank_score := None\<rparr>) (rerank_results enabled predict q cs k) =
      map (\<lambda>p. p\<lparr>rerank_score := None\<rparr>) (slice_to cs k)) \<and>
   (0 \<le> k \<longrightarrow> slice_to cs k = take (nat k) cs)"
proof -
  have short: "\<not> snd (add_scores results scores)" if "length scores < length results"
    for results scores
    using that by (induction results scores rule: add_scores.induct) (auto split: prod.splits)
  have third: "map (\<lambda>p. p\<lparr>rerank_score := None\<rparr>) (rerank_results enabled predict q cs k) =
      map (\<lambda>p. p\<lparr>rerank_score := None\<rparr>) (slice_to cs k)"
    if "predict (map (\<lambda>c. (q, content c)) cs) = Inr scores" "length scores < length cs"
  proof (cases "\<not> enabled \<or> length cs \<le> 1")
    case True
    then show ?thesis by (auto simp: rerank_results_def)
  next
    case False
    obtain scored finished where as: "add_scores cs scores = (scored, finished)"
      by (cases "add_scores cs scores") auto
    with short [OF that(2)] have nf: "\<not> finished" by simp
    have "rerank_results enabled predict q cs k = slice_to scored k"
      using False that(1) as nf by (simp add: rerank_results_def)
    moreover have "map (\<lambda>p. p\<lparr>rerank_score := None\<rparr>) scored = map (\<lambda>p. p\<lparr>rerank_score := None\<rparr>) cs"
      using add_scores_unscored [of cs scores] as by simp
    ultimately show ?thesis
      by (simp add: slice_to_map [symmetric])
  qed
  show ?thesis
    using third by (auto simp: rerank_results_def slice_to_nonneg)
qed


theorem rerank_fallback_witness:
  "rerank_results False (\<lambda>pairs. Inr []) ''query''
     [\<lparr>score = 3, chunkId = ''c1'', content = ''alpha'', documentTitle = ''Guide'', documentUrl = ''u'', fileName = ''f.pdf'', chunkIndex = 1, rerank_score = None\<rparr>,
      \<lparr>score = 2, chunkId = ''c2'', content = ''beta'', documentTitle = ''Guide'', documentUrl = ''u'', fileName = ''f.pdf'', chunkIndex = 2, rerank_score = None\<rparr>,
      \<lparr>score = 1, chunkId = ''c3'', content = ''gamma'', documentTitle = ''Guide'', documentUrl = ''u'', fileName = ''f.pdf'', chunkIndex = 3, rerank_score = None\<rparr>] 2 =
     [\<lparr>score = 3, chunkId = ''c1'', content = ''alpha'', documentTitle = ''Guide'', documentUrl = ''u'', fileName = ''f.pdf'', chunkIndex = 1, rerank_score = None\<rparr>,
      \<lparr>score = 2, chunkId = ''c2'', content = ''beta'', documentTitle = ''Guide'', documentUrl = ''u'', fileName = ''f.pdf'', chunkIndex = 2, rerank_score = None\<rparr>] \<and>
   rerank_results True (\<lambda>pairs. Inl (RuntimeError ''no model'')) ''query''
     [\<lparr>score = 3, chunkId = ''c1'', content = ''alpha'', documentTitle = ''Guide'', documentUrl = ''u'', fileName = ''f.pdf'', chunkIndex = 1, rerank_score = None\<rparr>,
      \<lparr>score = 2, chunkId = ''c2'', content = ''beta'', documentTitle = ''Guide'', documentUrl = ''u'', fileName = ''f.pdf'', chunkIndex = 2, rerank_score = None\<rparr>,
      \<lparr>score = 1, chunkId = ''c3'', content = ''gamma'', documentTitle = ''Guide'', documentUrl = ''u'', fileName = ''f.pdf'', chunkIndex = 3, rerank_score = None\<rparr>] 2 =
     [\<lparr>score = 3, chunkId = ''c1'', content = ''alpha'', documentTitle = ''Guide'', documentUrl = ''u'', fileName = ''f.pdf'', chunkIndex = 1, rerank_score = None\<rparr>,
      \<lparr>score = 2, chunkId = ''c2'', content = ''beta'', documentTitle = ''Guide'', documentUrl = ''u'', fileName = ''f.pdf'', chunkIndex = 2, rerank_score = None\<rparr>]"
  using rerank_fallback [of False
      "[\<lparr>score = 3, chunkId = ''c1'', content = ''alpha'', documentTitle = ''Guide'', documentUrl = ''u'', fileName = ''f.pdf'', chunkIndex = 1, rerank_score = None\<rparr>,
      \<lparr>score = 2, chunkId = ''c2'', content = ''beta'', documentTitle = ''Guide'', documentUrl = ''u'', fileName = ''f.pdf'', chunkIndex = 2, rerank_score = None\<rparr>,
      \<lparr>score = 1, chunkId = ''c3'', content = ''gamma'', documentTitle = ''Guide'', documentUrl = ''u'', fileName = ''f.pdf'', chunkIndex = 3, rerank_score = None\<rparr>]"
      "\<lambda>pairs. Inr []" "''query''" 2 "RuntimeError ''no model''" "[]"]
    rerank_fallback [of True
      "[\<lparr>score = 3, chunkId = ''c1'', content = ''alpha'', documentTitle = ''Guide'', documentUrl = ''u'', fileName = ''f.pdf'', chunkIndex = 1, rerank_score = None\<rparr>,
      \<lparr>score = 2, chunkId = ''c2'', content = ''beta'', documentTitle = ''Guide'', documentUrl = ''u'', fileName = ''f.pdf'', chunkIndex = 2, rerank_score = None\<rparr>,
      \<lparr>score = 1, chunkId = ''c3'', content = ''gamma'', documentTitle = ''Guide'', documentUrl = ''u'', fileName = ''f.pdf'', chunkIndex = 3, rerank_score = None\<rparr>]"
      "\<lambda>pairs. Inl (RuntimeError ''no model'')" "''query''" 2 "RuntimeError ''no model''" "[]"]
  by (simp add: slice_to_def)

section \<open>Properties of the pipeline\<close>

lemma cache_get_ttl: "ttl_seconds (snd (cache_get md5 c q m now)) = ttl_seconds c"
  by (simp add: cache_get_def Let_def split: option.splits)

lemma cache_get_max_size: "max_size (snd (cache_get md5 c q m now)) = max_size c"
  by (simp add: cache_get_def Let_def split: option.splits)

lemma store_result_cases:
  assumes "store_result w s q sid mode result calls = (r, s', tr)"
  shows "tr = calls \<and> chatSessions s' = chatSessions s \<and>
         ((\<exists>e. r = exception_result e mode sid \<and> s' = s) \<or>
          (r = result \<and>
           ttl_seconds (svc_cache s') = ttl_seconds (svc_cache s) \<and>
           map_of (cache (svc_cache s')) (get_key (w_md5 w) q mode) =
             Some \<lparr>data = result, timestamp = w_time_set w\<rparr>))"
proof (cases "cache_set (w_md5 w) (svc_cache s) q mode result (w_time_set w)")
  case (Inl e)
  with assms show ?thesis by (auto simp: store_result_def)
next
  case (Inr stored)
  then obtain kept where "evict_if_full (svc_cache s) = Inr kept"
    and stored: "stored = (svc_cache s)\<lparr>cache := AList.update (get_key (w_md5 w) q mode)
        \<lparr>data = result, timestamp = w_time_set w\<rparr> kept\<rparr>"
    by (auto simp: cache_set_def split: sum.splits)
  from assms Inr have "r = result" "s' = s\<lparr>svc_cache := stored\<rparr>" "tr = calls"
    by (auto simp: store_result_def)
  then show ?thesis
    by (simp add: stored map_of_update_same)
qed

lemma exception_result_fails: "\<not> res_success (exception_result e mode sid)"
  by (simp add: exception_result_def)

lemma store_result_succeeds:
  assumes "0 < max_size (svc_cache s)"
  shows "\<exists>s'. store_result w s q sid mode result calls = (result, s', calls)"
proof -
  from assms obtain kept where "evict_if_full (svc_cache s) = Inr kept"
    using evict_if_full_succeeds by blast
  then show ?thesis
    by (simp add: store_result_def cache_set_def)
qed

lemma answer_from_failed:
  assumes run: "answer_from w s q sid mode k rr cq hist rs calls = (r, s', tr)"
    and ranked: "ranked = rank_step w rr cq rs k"
    and failed: "\<not> gen_success (generate_answer (w_llm w q ranked hist) ranked)"
  shows "s' = s \<and> tr = calls @ [Generated q ranked hist (w_llm w q ranked hist)] \<and>
         \<not> res_success r \<and>
         res_answer r = gen_answer (generate_answer (w_llm w q ranked hist) ranked)"
  using run failed unfolding answer_from_def ranked Let_def
  by (auto split: if_splits)

lemma generate_answer_success_iff:
  "gen_success (generate_answer outcome ctx) \<longleftrightarrow> (\<exists>a. outcome = Answered a)"
  by (cases outcome) (simp_all add: generate_answer_def)

lemma answer_from_answered:
  assumes run: "answer_from w s q sid mode k rr cq hist rs calls = (r, s', tr)"
    and ranked: "ranked = rank_step w rr cq rs k"
    and answered: "w_llm w q ranked hist = Answered a"
  shows "tr = calls @ [Generated q ranked hist (Answered a)] \<and>
         chatSessions s' =
           update_chat_session (chatSessions s) sid q a (w_stamp_user w) (w_stamp_assistant w) \<and>
         ((\<exists>e. r = exception_result e mode sid) \<or>
          (res_success r \<and> res_answer r = validate_generated_answer a ranked \<and>
           res_cached r = Some False \<and>
           ttl_seconds (svc_cache s') = ttl_seconds (svc_cache s) \<and>
           map_of (cache (svc_cache s')) (get_key (w_md5 w) q mode) =
             Some \<lparr>data = r, timestamp = w_time_set w\<rparr>))"
proof -
  define s1 where "s1 = s\<lparr>chatSessions :=
      update_chat_session (chatSessions s) sid q a (w_stamp_user w) (w_stamp_assistant w)\<rparr>"
  define result where "result =
      \<lparr>res_success = True, res_error = None,
       res_answer = validate_generated_answer a ranked,
       res_sources = extract_sources ranked,
       res_contextUsed = Some (length ranked > 0),
       res_searchMode = Some mode,
       res_retrievedCount = Some (length ranked),
       res_sessionId = Some sid, res_cached = Some False,
       res_reranked = Some (rr \<and> length rs > 1)\<rparr>"
  have "answer_from w s q sid mode k rr cq hist rs calls =
      store_result w s1 q sid mode result (calls @ [Generated q ranked hist (Answered a)])"
    unfolding answer_from_def Let_def ranked [symmetric] answered
    by (simp add: generate_answer_def s1_def result_def)
  with run have "store_result w s1 q sid mode result
      (calls @ [Generated q ranked hist (Answered a)]) = (r, s', tr)"
    by simp
  from store_result_cases [OF this] show ?thesis
    by (auto simp: s1_def result_def)
qed


lemma answer_from_calls:
  assumes "answer_from w s q sid mode k rr cq hist rs calls = (r, s', tr)"
  shows "tr = calls @ [Generated q (rank_step w rr cq rs k) hist
                         (w_llm w q (rank_step w rr cq rs k) hist)]"
proof (cases "w_llm w q (rank_step w rr cq rs k) hist")
  case (Answered a)
  from answer_from_answered [OF assms refl Answered] show ?thesis
    by (simp add: Answered)
next
  case (Unavailable err)
  then have "\<not> gen_success (generate_answer (w_llm w q (rank_step w rr cq rs k) hist)
      (rank_step w rr cq rs k))"
    by (simp add: generate_answer_def)
  from answer_from_failed [OF assms refl this] show ?thesis by simp
next
  case (Crashed err)
  then have "\<not> gen_success (generate_answer (w_llm w q (rank_step w rr cq rs k) hist)
      (rank_step w rr cq rs k))"
    by (simp add: generate_answer_def)
  from answer_from_failed [OF assms refl this] show ?thesis by simp
qed

lemma process_query_generated:
  assumes run: "process_query w s q sid mode k rr = (r, s', tr)"
    and gen: "Generated uq ctx h outcome \<in> set tr"
  shows "\<exists>s0 cq rs calls.
           chatSessions s0 = chatSessions s \<and>
           ttl_seconds (svc_cache s0) = ttl_seconds (svc_cache s) \<and>
           max_size (svc_cache s0) = max_size (svc_cache s) \<and>
           uq = q \<and> h = get_chat_history (chatSessions s) sid \<and>
           ctx = rank_step w rr cq rs k \<and> outcome = w_llm w q ctx h \<and>
           calls = [Retrieved cq (if rr then k * 3 else k) mode] \<and>
           answer_from w s0 q sid mode k rr cq h rs calls = (r, s', tr)"
proof -
  from run gen have nonempty: "\<not> (q = [] \<or> strip q = [])"
    by (auto simp: process_query_def)
  obtain found looked where look:
    "cache_get (w_md5 w) (svc_cache s) q mode (w_time_get w) = (found, looked)"
    by (cases "cache_get (w_md5 w) (svc_cache s) q mode (w_time_get w)") auto
  from run gen nonempty look have miss: "found = None"
    by (cases found) (auto simp: process_query_def)
  define s0 where "s0 = s\<lparr>svc_cache := looked\<lparr>total_requests := total_requests looked + 1\<rparr>\<rparr>"
  have looked: "ttl_seconds looked = ttl_seconds (svc_cache s)"
    "max_size looked = max_size (svc_cache s)"
    using cache_get_ttl [of "w_md5 w" "svc_cache s" q mode "w_time_get w"]
      cache_get_max_size [of "w_md5 w" "svc_cache s" q mode "w_time_get w"]
    by (simp_all add: look)
  from run gen nonempty look miss have valid: "isValid (validate_query q)"
    by (auto simp: process_query_def Let_def s0_def split: if_splits)
  with run nonempty look miss have rest:
    "retrieve_and_answer w s0 q sid mode k rr = (r, s', tr)"
    by (simp add: process_query_def Let_def s0_def)
  define h0 where "h0 = get_chat_history (chatSessions s0) sid"
  define cq where "cq = enhance_query_with_context (w_set_list w) (optimize_query q) h0"
  define rs where "rs = w_search w cq (if rr then k * 3 else k) mode"
  define calls where "calls = [Retrieved cq (if rr then k * 3 else k) mode]"
  have found_some: "rs \<noteq> []"
  proof
    assume "rs = []"
    with rest have "store_result w s0 q sid mode (no_results_result mode sid) calls = (r, s', tr)"
      by (simp add: retrieve_and_answer_def Let_def h0_def cq_def rs_def calls_def)
    from store_result_cases [OF this] have "tr = calls" by simp
    with gen show False by (simp add: calls_def)
  qed
  with rest have af: "answer_from w s0 q sid mode k rr cq h0 rs calls = (r, s', tr)"
    by (simp add: retrieve_and_answer_def Let_def h0_def cq_def rs_def calls_def)
  from answer_from_calls [OF this] gen
  have "Generated uq ctx h outcome =
      Generated q (rank_step w rr cq rs k) h0 (w_llm w q (rank_step w rr cq rs k) h0)"
    by (simp add: calls_def)
  then have ids: "uq = q" "ctx = rank_step w rr cq rs k" "h = h0"
    "outcome = w_llm w q ctx h"
    by simp_all
  have "chatSessions s0 = chatSessions s" by (simp add: s0_def)
  moreover have "ttl_seconds (svc_cache s0) = ttl_seconds (svc_cache s)"
    "max_size (svc_cache s0) = max_size (svc_cache s)"
    by (simp_all add: s0_def looked)
  moreover have "h = get_chat_history (chatSessions s) sid"
    by (simp add: ids h0_def s0_def)
  ultimately show ?thesis
    using ids af calls_def by blast
qed



text \<open>
  Claim C9. In every request that reaches answer generation and whose generation reports
  failure, \<open>process_query\<close> leaves the sessions as they were: no turn is appended to
  the history of the session. The result is the failure result carrying the generator's
  apology.
\<close>

theorem failed_generation_keeps_session:
  assumes run: "process_query w s q sid mode k rr = (r, s', calls)"
    and gen: "Generated uq ctx h outcome \<in> set calls"
    and failed: "\<not> gen_success (generate_answer outcome ctx)"
  shows "chatSessions s' = chatSessions s \<and>
         get_chat_history (chatSessions s') sid = get_chat_history (chatSessions s) sid \<and>
         \<not> res_success r \<and> res_answer r = gen_answer (generate_answer outcome ctx)"
proof -
  from process_query_generated [OF run gen] obtain s0 cq rs calls0 where
    same: "chatSessions s0 = chatSessions s" and
    ctx: "ctx = rank_step w rr cq rs k" and
    outcome: "outcome = w_llm w q ctx h" and
    af: "answer_from w s0 q sid mode k rr cq h rs calls0 = (r, s', calls)"
    by blast
  from failed have "\<not> gen_success (generate_answer (w_llm w q ctx h) ctx)"
    by (simp add: outcome)
  from answer_from_failed [OF af ctx this] same show ?thesis
    by (simp add: outcome)
qed

theorem failed_generation_keeps_session_witness:
  "process_query (sample_world (Unavailable ''Request timed out after 3 attempts'') 100 101)
      (new_service\<lparr>chatSessions := [''s1'' \<mapsto> [user_turn ''Hello there'' ''t0'', assistant_turn ''Hi'' ''t1'']]\<rparr>)
      ''How do I reset the device?'' ''s1'' ''hybrid'' 5 True =
     (fst (process_query (sample_world (Unavailable ''Request timed out after 3 attempts'') 100 101)
        (new_service\<lparr>chatSessions := [''s1'' \<mapsto> [user_turn ''Hello there'' ''t0'', assistant_turn ''Hi'' ''t1'']]\<rparr>)
        ''How do I reset the device?'' ''s1'' ''hybrid'' 5 True),
      fst (snd (process_query (sample_world (Unavailable ''Request timed out after 3 attempts'') 100 101)
        (new_service\<lparr>chatSessions := [''s1'' \<mapsto> [user_turn ''Hello there'' ''t0'', assistant_turn ''Hi'' ''t1'']]\<rparr>)
        ''How do I reset the device?'' ''s1'' ''hybrid'' 5 True)),
      [Retrieved ''how do reset the device? Hello there'' 15 ''hybrid'',
       Generated ''How do I reset the device?'' [sample_passage]
         [user_turn ''Hello there'' ''t0'', assistant_turn ''Hi'' ''t1'']
         (Unavailable ''Request timed out after 3 attempts'')]) \<and>
   get_chat_history (chatSessions (fst (snd (process_query
        (sample_world (Unavailable ''Request timed out after 3 attempts'') 100 101)
        (new_service\<lparr>chatSessions := [''s1'' \<mapsto> [user_turn ''Hello there'' ''t0'', assistant_turn ''Hi'' ''t1'']]\<rparr>)
        ''How do I reset the device?'' ''s1'' ''hybrid'' 5 True)))) ''s1'' =
     [user_turn ''Hello there'' ''t0'', assistant_turn ''Hi'' ''t1'']"
proof -
  let ?w = "sample_world (Unavailable ''Request timed out after 3 attempts'') 100 101"
  let ?s = "new_service\<lparr>chatSessions := [''s1'' \<mapsto> [user_turn ''Hello there'' ''t0'', assistant_turn ''Hi'' ''t1'']]\<rparr>"
  let ?run = "process_query ?w ?s ''How do I reset the device?'' ''s1'' ''hybrid'' 5 True"
  let ?calls = "[Retrieved ''how do reset the device? Hello there'' 15 ''hybrid'',
       Generated ''How do I reset the device?'' [sample_passage]
         [user_turn ''Hello there'' ''t0'', assistant_turn ''Hi'' ''t1'']
         (Unavailable ''Request timed out after 3 attempts'')]"
  have calls: "snd (snd ?run) = ?calls"
    by code_simp
  then have run: "?run = (fst ?run, fst (snd ?run), ?calls)"
    by (metis prod.collapse)
  have gen: "Generated ''How do I reset the device?'' [sample_passage]
         [user_turn ''Hello there'' ''t0'', assistant_turn ''Hi'' ''t1'']
         (Unavailable ''Request timed out after 3 attempts'') \<in> set ?calls"
    by simp
  have failed: "\<not> gen_success (generate_answer (Unavailable ''Request timed out after 3 attempts'')
      [sample_passage])"
    by (simp add: generate_answer_def)
  from failed_generation_keeps_session [OF run gen failed]
  have "get_chat_history (chatSessions (fst (snd ?run))) ''s1'' = get_chat_history (chatSessions ?s) ''s1''"
    by simp
  then have "get_chat_history (chatSessions (fst (snd ?run))) ''s1'' =
      [user_turn ''Hello there'' ''t0'', assistant_turn ''Hi'' ''t1'']"
    by (simp add: get_chat_history_def)
  with run show ?thesis by simp
qed

text \<open>
  Claim C2 (as amended). In every request whose generation succeeds, the session update
  comes before the output guardrail: the turns appended to the session are the user's
  query and the generator's raw answer, and the history is the last 20 turns of the old
  history followed by these two. The answer of a successful result is the raw answer
  passed through \<open>validate_generated_answer\<close>; with a cache of positive capacity the
  result is successful.
\<close>

theorem session_holds_raw_answer:
  assumes run: "process_query w s q sid mode k rr = (r, s', calls)"
    and gen: "Generated uq ctx h (Answered a) \<in> set calls"
  shows "chatSessions s' =
           update_chat_session (chatSessions s) sid q a (w_stamp_user w) (w_stamp_assistant w) \<and>
         get_chat_history (chatSessions s') sid =
           last_n 20 (get_chat_history (chatSessions s) sid @
                      [user_turn q (w_stamp_user w), assistant_turn a (w_stamp_assistant w)]) \<and>
         (res_success r \<longrightarrow> res_answer r = validate_generated_answer a ctx) \<and>
         (0 < max_size (svc_cache s) \<longrightarrow> res_success r)"
proof -
  from process_query_generated [OF run gen] obtain s0 cq rs calls0 where
    same: "chatSessions s0 = chatSessions s" and
    size: "max_size (svc_cache s0) = max_size (svc_cache s)" and
    ctx: "ctx = rank_step w rr cq rs k" and
    outcome: "Answered a = w_llm w q ctx h" and
    af: "answer_from w s0 q sid mode k rr cq h rs calls0 = (r, s', calls)"
    by blast
  from answer_from_answered [OF af ctx outcome [symmetric]] have
    sessions: "chatSessions s' =
      update_chat_session (chatSessions s0) sid q a (w_stamp_user w) (w_stamp_assistant w)" and
    result: "(\<exists>e. r = exception_result e mode sid) \<or>
      (res_success r \<and> res_answer r = validate_generated_answer a ctx)"
    by auto
  have positive: "res_success r" if "0 < max_size (svc_cache s)"
  proof -
    define s1 where "s1 = s0\<lparr>chatSessions :=
      update_chat_session (chatSessions s0) sid q a (w_stamp_user w) (w_stamp_assistant w)\<rparr>"
    define result where "result =
      \<lparr>res_success = True, res_error = None,
       res_answer = validate_generated_answer a ctx,
       res_sources = extract_sources ctx,
       res_contextUsed = Some (length ctx > 0),
       res_searchMode = Some mode,
       res_retrievedCount = Some (length ctx),
       res_sessionId = Some sid, res_cached = Some False,
       res_reranked = Some (rr \<and> length rs > 1)\<rparr>"
    have "answer_from w s0 q sid mode k rr cq h rs calls0 =
        store_result w s1 q sid mode result (calls0 @ [Generated q ctx h (Answered a)])"
      unfolding answer_from_def Let_def ctx [symmetric] outcome [symmetric]
      by (simp add: generate_answer_def s1_def result_def)
    moreover have "0 < max_size (svc_cache s1)"
      using that size by (simp add: s1_def)
    from store_result_succeeds [OF this] obtain s2 where
      "store_result w s1 q sid mode result (calls0 @ [Generated q ctx h (Answered a)]) =
        (result, s2, calls0 @ [Generated q ctx h (Answered a)])"
      by blast
    ultimately have "r = result" using af by simp
    then show ?thesis by (simp add: result_def)
  qed
  from sessions same have upd: "chatSessions s' =
      update_chat_session (chatSessions s) sid q a (w_stamp_user w) (w_stamp_assistant w)"
    by simp
  have hist: "get_chat_history (chatSessions s') sid =
      last_n 20 (get_chat_history (chatSessions s) sid @
                 [user_turn q (w_stamp_user w), assistant_turn a (w_stamp_assistant w)])"
    unfolding upd by (rule history_update_same)
  from result have "res_success r \<longrightarrow> res_answer r = validate_generated_answer a ctx"
    by (auto simp: exception_result_fails)
  with upd hist positive show ?thesis by blast
qed

theorem session_holds_raw_answer_witness:
  "snd (snd (process_query (sample_world (Answered ''Hold the button.'') 100 101) new_service
      ''How do I reset the device?'' ''s1'' ''hybrid'' 5 True)) =
     [Retrieved ''how do reset the device?'' 15 ''hybrid'',
      Generated ''How do I reset the device?'' [sample_passage] [] (Answered ''Hold the button.'')] \<and>
   0 < max_size (svc_cache new_service) \<and>
   get_chat_history (chatSessions (fst (snd (process_query
      (sample_world (Answered ''Hold the button.'') 100 101) new_service
      ''How do I reset the device?'' ''s1'' ''hybrid'' 5 True)))) ''s1'' =
     [user_turn ''How do I reset the device?'' ''2024-01-01T00:00:00'',
      assistant_turn ''Hold the button.'' ''2024-01-01T00:00:01''] \<and>
   res_answer (fst (process_query (sample_world (Answered ''Hold the button.'') 100 101) new_service
      ''How do I reset the device?'' ''s1'' ''hybrid'' 5 True)) =
     validate_generated_answer ''Hold the button.'' [sample_passage]"
proof -
  let ?w = "sample_world (Answered ''Hold the button.'') 100 101"
  let ?run = "process_query ?w new_service ''How do I reset the device?'' ''s1'' ''hybrid'' 5 True"
  let ?calls = "[Retrieved ''how do reset the device?'' 15 ''hybrid'',
      Generated ''How do I reset the device?'' [sample_passage] [] (Answered ''Hold the button.'')]"
  have calls: "snd (snd ?run) = ?calls"
    by code_simp
  then have run: "?run = (fst ?run, fst (snd ?run), ?calls)"
    by (metis prod.collapse)
  have gen: "Generated ''How do I reset the device?'' [sample_passage] []
      (Answered ''Hold the button.'') \<in> set ?calls"
    by simp
  have size: "0 < max_size (svc_cache new_service)"
    by (simp add: new_service_def new_cache_def)
  have stamps: "w_stamp_user ?w = ''2024-01-01T00:00:00''"
    "w_stamp_assistant ?w = ''2024-01-01T00:00:01''"
    by (simp_all add: sample_world_def)
  have start: "get_chat_history (chatSessions new_service) ''s1'' = []"
    by (simp add: new_service_def get_chat_history_def)
  note fact = session_holds_raw_answer [OF run gen]
  from fact have "get_chat_history (chatSessions (fst (snd ?run))) ''s1'' =
      last_n 20 (get_chat_history (chatSessions new_service) ''s1'' @
        [user_turn ''How do I reset the device?'' (w_stamp_user ?w),
         assistant_turn ''Hold the button.'' (w_stamp_assistant ?w)])"
    by (rule conjunct2 [THEN conjunct1])
  then have hist: "get_chat_history (chatSessions (fst (snd ?run))) ''s1'' =
      [user_turn ''How do I reset the device?'' ''2024-01-01T00:00:00'',
       assistant_turn ''Hold the button.'' ''2024-01-01T00:00:01'']"
    by (simp add: stamps start last_n_def)
  from fact size have "res_answer (fst ?run) =
      validate_generated_answer ''Hold the button.'' [sample_passage]"
    by blast
  with calls size hist show ?thesis by blast
qed

text \<open>
  The claim as it was stated fails wherever the guardrail changes the answer: the result
  carries the answer with the source suffix, the session holds the answer without it.
\<close>

theorem session_update_counterexample:
  "res_answer (fst (process_query (sample_world (Answered ''Hold the button.'') 100 101) new_service
      ''How do I reset the device?'' ''s1'' ''hybrid'' 5 True)) =
     ''Hold the button. (Based on: Guide)'' \<and>
   get_chat_history (chatSessions (fst (snd (process_query
      (sample_world (Answered ''Hold the button.'') 100 101) new_service
      ''How do I reset the device?'' ''s1'' ''hybrid'' 5 True)))) ''s1'' =
     [\<lparr>role = ''user'', turn_content = ''How do I reset the device?'',
       turn_timestamp = ''2024-01-01T00:00:00''\<rparr>,
      \<lparr>role = ''assistant'', turn_content = ''Hold the button.'',
       turn_timestamp = ''2024-01-01T00:00:01''\<rparr>]"
  by code_simp

lemma process_query_stored:
  assumes run: "process_query w s q sid mode k rr = (r, s', calls)"
    and ok: "res_success r"
    and called: "calls \<noteq> []"
  shows "\<not> (q = [] \<or> strip q = []) \<and>
         ttl_seconds (svc_cache s') = ttl_seconds (svc_cache s) \<and>
         map_of (cache (svc_cache s')) (get_key (w_md5 w) q mode) =
           Some \<lparr>data = r, timestamp = w_time_set w\<rparr>"
proof -
  from run called have nonempty: "\<not> (q = [] \<or> strip q = [])"
    by (auto simp: process_query_def)
  obtain found looked where look:
    "cache_get (w_md5 w) (svc_cache s) q mode (w_time_get w) = (found, looked)"
    by (cases "cache_get (w_md5 w) (svc_cache s) q mode (w_time_get w)") auto
  from run called nonempty look have miss: "found = None"
    by (cases found) (auto simp: process_query_def)
  define s0 where "s0 = s\<lparr>svc_cache := looked\<lparr>total_requests := total_requests looked + 1\<rparr>\<rparr>"
  have ttl0: "ttl_seconds (svc_cache s0) = ttl_seconds (svc_cache s)"
    using cache_get_ttl [of "w_md5 w" "svc_cache s" q mode "w_time_get w"]
    by (simp add: look s0_def)
  from run called nonempty look miss have valid: "isValid (validate_query q)"
    by (auto simp: process_query_def Let_def s0_def split: if_splits)
  with run nonempty look miss have rest:
    "retrieve_and_answer w s0 q sid mode k rr = (r, s', calls)"
    by (simp add: process_query_def Let_def s0_def)
  define h0 where "h0 = get_chat_history (chatSessions s0) sid"
  define cq where "cq = enhance_query_with_context (w_set_list w) (optimize_query q) h0"
  define rs where "rs = w_search w cq (if rr then k * 3 else k) mode"
  define calls0 where "calls0 = [Retrieved cq (if rr then k * 3 else k) mode]"
  have stored: "ttl_seconds (svc_cache s') = ttl_seconds (svc_cache s0) \<and>
      map_of (cache (svc_cache s')) (get_key (w_md5 w) q mode) =
        Some \<lparr>data = r, timestamp = w_time_set w\<rparr>"
  proof (cases "rs = []")
    case True
    with rest have "store_result w s0 q sid mode (no_results_result mode sid) calls0 =
        (r, s', calls)"
      by (simp add: retrieve_and_answer_def Let_def h0_def cq_def rs_def calls0_def)
    from store_result_cases [OF this] ok show ?thesis
      by (auto simp: exception_result_fails)
  next
    case False
    with rest have af: "answer_from w s0 q sid mode k rr cq h0 rs calls0 = (r, s', calls)"
      by (simp add: retrieve_and_answer_def Let_def h0_def cq_def rs_def calls0_def)
    define ranked where "ranked = rank_step w rr cq rs k"
    have "gen_success (generate_answer (w_llm w q ranked h0) ranked)"
      using answer_from_failed [OF af ranked_def] ok by blast
    then obtain a where "w_llm w q ranked h0 = Answered a"
      by (auto simp: generate_answer_success_iff)
    from answer_from_answered [OF af ranked_def this] ok show ?thesis
      by (auto simp: exception_result_fails)
  qed
  with nonempty ttl0 show ?thesis by simp
qed

text \<open>
  Claim C1 (as amended). Take a first call that made its own retrieval and returned a
  successful result (an answer or the no-results answer): the result was stored. A second
  call with the same query and search mode, whatever its session id and its other
  arguments, whose cache lookup comes less than the TTL after that store, makes no call to
  the search engine and none to the language model, returns the stored result (every
  field but the \<open>cached\<close> flag is compared here), and leaves the sessions and the cache
  entries as they are.
\<close>

theorem second_call_served_from_cache:
  assumes first: "process_query w1 s q sid mode k rr = (r1, s1, calls1)"
    and ok: "res_success r1"
    and called: "calls1 \<noteq> []"
    and digest: "w_md5 w2 = w_md5 w1"
    and soon: "w_time_get w2 - w_time_set w1 < real_of_int (ttl_seconds (svc_cache s))"
  shows "\<exists>r2 s2. process_query w2 s1 q sid2 mode k2 rr2 = (r2, s2, []) \<and>
           r2\<lparr>res_cached := None\<rparr> = r1\<lparr>res_cached := None\<rparr> \<and>
           chatSessions s2 = chatSessions s1 \<and>
           cache (svc_cache s2) = cache (svc_cache s1)"
proof -
  from process_query_stored [OF first ok called] have
    nonempty: "\<not> (q = [] \<or> strip q = [])" and
    ttl: "ttl_seconds (svc_cache s1) = ttl_seconds (svc_cache s)" and
    entry: "map_of (cache (svc_cache s1)) (get_key (w_md5 w1) q mode) =
      Some \<lparr>data = r1, timestamp = w_time_set w1\<rparr>"
    by simp_all
  have "cache_get (w_md5 w2) (svc_cache s1) q mode (w_time_get w2) = (Some r1, svc_cache s1)"
    using cache_get_fresh [of "svc_cache s1" "w_md5 w1" q mode
        "\<lparr>data = r1, timestamp = w_time_set w1\<rparr>" "w_time_get w2"] entry soon
    by (simp add: ttl digest)
  with nonempty have "process_query w2 s1 q sid2 mode k2 rr2 =
      (r1, s1\<lparr>svc_cache := (svc_cache s1)\<lparr>hit_count := hit_count (svc_cache s1) + 1\<rparr>\<rparr>, [])"
    by (simp add: process_query_def)
  then show ?thesis by simp
qed


theorem second_call_served_from_cache_witness:
  "res_success (fst (process_query (sample_world (Answered ''Hold the button.'') 100 101)
      new_service ''How do I reset the device?'' ''s1'' ''hybrid'' 5 True)) \<and>
   snd (snd (process_query (sample_world (Answered ''Hold the button.'') 100 101)
      new_service ''How do I reset the device?'' ''s1'' ''hybrid'' 5 True)) \<noteq> [] \<and>
   snd (snd (process_query (sample_world (Answered ''Another answer.'') 150 151)
      (fst (snd (process_query (sample_world (Answered ''Hold the button.'') 100 101)
         new_service ''How do I reset the device?'' ''s1'' ''hybrid'' 5 True)))
      ''How do I reset the device?'' ''s2'' ''hybrid'' 3 False)) = [] \<and>
   res_answer (fst (process_query (sample_world (Answered ''Another answer.'') 150 151)
      (fst (snd (process_query (sample_world (Answered ''Hold the button.'') 100 101)
         new_service ''How do I reset the device?'' ''s1'' ''hybrid'' 5 True)))
      ''How do I reset the device?'' ''s2'' ''hybrid'' 3 False)) =
     ''Hold the button. (Based on: Guide)''"
proof -
  let ?w1 = "sample_world (Answered ''Hold the button.'') 100 101"
  let ?w2 = "sample_world (Answered ''Another answer.'') 150 151"
  let ?run1 = "process_query ?w1 new_service ''How do I reset the device?'' ''s1'' ''hybrid'' 5 True"
  let ?run2 = "process_query ?w2 (fst (snd ?run1)) ''How do I reset the device?'' ''s2'' ''hybrid'' 3 False"
  have first: "?run1 = (fst ?run1, fst (snd ?run1), snd (snd ?run1))"
    by simp
  have ok: "res_success (fst ?run1)"
    by code_simp
  have called: "snd (snd ?run1) \<noteq> []"
    by code_simp
  have answer1: "res_answer (fst ?run1) = ''Hold the button. (Based on: Guide)''"
    by code_simp
  have digest: "w_md5 ?w2 = w_md5 ?w1"
    by (simp add: sample_world_def)
  have soon: "w_time_get ?w2 - w_time_set ?w1 < real_of_int (ttl_seconds (svc_cache new_service))"
    by (simp add: sample_world_def new_service_def new_cache_def)
  from second_call_served_from_cache [OF first ok called digest soon, of "''s2''" 3 False]
  obtain r2 s2 where run2: "?run2 = (r2, s2, [])"
    and same: "r2\<lparr>res_cached := None\<rparr> = (fst ?run1)\<lparr>res_cached := None\<rparr>"
    by blast
  from same have "res_answer (r2\<lparr>res_cached := None\<rparr>) = res_answer ((fst ?run1)\<lparr>res_cached := None\<rparr>)"
    by simp
  then have "res_answer r2 = res_answer (fst ?run1)"
    by simp
  with run2 answer1 have "snd (snd ?run2) = []"
    "res_answer (fst ?run2) = ''Hold the button. (Based on: Guide)''"
    by simp_all
  with ok called show ?thesis by blast
qed

text \<open>
  The claim as it was stated fails in two ways. The second call returns the dictionary the
  first call stored, whose \<open>cached\<close> key was written as \<open>False\<close>. And a first call whose
  generation failed stores nothing, so the second call retrieves and generates again.
\<close>

theorem second_call_counterexample:
  "res_cached (fst (process_query (sample_world (Answered ''Another answer.'') 150 151)
      (fst (snd (process_query (sample_world (Answered ''Hold the button.'') 100 101)
         new_service ''How do I reset the device?'' ''s1'' ''hybrid'' 5 True)))
      ''How do I reset the device?'' ''s1'' ''hybrid'' 5 True)) = Some False \<and>
   snd (snd (process_query (sample_world (Answered ''Hold the button.'') 150 151)
      (fst (snd (process_query (sample_world (Unavailable ''Request timed out after 3 attempts'') 100 101)
         new_service ''How do I reset the device?'' ''s1'' ''hybrid'' 5 True)))
      ''How do I reset the device?'' ''s1'' ''hybrid'' 5 True)) =
     [Retrieved ''how do reset the device?'' 15 ''hybrid'',
      Generated ''How do I reset the device?'' [sample_passage] [] (Answered ''Hold the button.'')]"
  by code_simp

end
